theory Spec2Isabelle
  imports Complex_Main "HOL-Library.Sublist" "HOL-Library.Char_ord" "HOL-Library.List_Lexorder"
begin

section \<open>Data model (database/models.py)\<close>

text \<open>
  The enumerations and dataclasses of \<^verbatim>\<open>database/models.py\<close>.  A path-valued column
  (\<^verbatim>\<open>file_path\<close>, \<^verbatim>\<open>pinned_path\<close>) is kept as the \<^verbatim>\<open>pathlib\<close> path it is parsed
  into at every use, that is the list of its parts; a modification time is a Python float
  and is modelled by an exact rational, so the rounding of float subtraction is not modelled.
  Field names carry a prefix where two dataclasses share a name.
\<close>

datatype FileStatus = OK | MODIFIED | MISSING

datatype EventType =
  RESTORE | PIN | UNPIN | DELETE | VERIFY_OK | VERIFY_MODIFIED | VERIFY_MISSING | RELINK

type_synonym path = "string list"

record TrackedFile =
  tf_id :: string
  display_name :: string
  file_path :: path
  file_size :: nat
  modified_time :: rat
  status :: FileStatus
  created_at :: string
  file_hash :: "string option"
  is_favorite :: bool
  is_archived :: bool
  project_id :: "string option"

record Version =
  v_id :: string
  v_file_id :: string
  version_number :: int
  commit_message :: string
  v_file_size :: nat
  v_modified_time :: rat
  v_created_at :: string
  v_file_hash :: "string option"
  is_pinned :: bool
  pinned_path :: "path option"

record Event =
  e_id :: string
  e_file_id :: string
  event_type :: EventType
  description :: "string option"
  e_created_at :: string

text \<open>Exceptions of the Python run time that the modelled code can raise.\<close>

datatype py_error =
  OSError | FileNotFoundError | ValueError | IntegrityError | OverflowError
  | NameError string | UnboundLocalError string

section \<open>The file system\<close>

text \<open>
  The disk is a finite table from paths to nodes.  A regular file holds its bytes and its
  modification time; \<^verbatim>\<open>st_size\<close> is the number of bytes.  A directory holds what
  \<^verbatim>\<open>stat\<close> reports for it.  Paths are compared part by part: symbolic links and
  \<^verbatim>\<open>..\<close> are not resolved.
\<close>

datatype node = File string rat | Dir nat rat

type_synonym fs = "(path \<times> node) list"

definition path_exists :: "fs \<Rightarrow> path \<Rightarrow> bool" where
  "path_exists d p = (map_of d p \<noteq> None)"

fun is_dir_node :: "node option \<Rightarrow> bool" where
  "is_dir_node (Some (Dir s m)) = True"
| "is_dir_node other = False"

definition is_dir :: "fs \<Rightarrow> path \<Rightarrow> bool" where
  "is_dir d p = is_dir_node (map_of d p)"

fun st_size :: "node \<Rightarrow> nat" where
  "st_size (File c m) = length c"
| "st_size (Dir s m) = s"

fun st_mtime :: "node \<Rightarrow> rat" where
  "st_mtime (File c m) = m"
| "st_mtime (Dir s m) = m"

section \<open>Verification engine (core/verification.py)\<close>

record FileState =
  fs_exists :: bool
  fs_file_size :: nat
  fs_modified_time :: rat
  fs_file_hash :: "string option"

text \<open>
  \<^verbatim>\<open>compute_file_hash\<close>: the digest function (xxhash64 or SHA-256, fixed per
  installation) is the parameter \<open>H\<close>, from the bytes of a file to its hex digest.
  Opening a directory raises an \<^verbatim>\<open>OSError\<close>, which the function turns into \<^verbatim>\<open>None\<close>.
\<close>

definition compute_file_hash :: "(string \<Rightarrow> string) \<Rightarrow> fs \<Rightarrow> path \<Rightarrow> string option" where
  "compute_file_hash H d p =
     (if \<not> path_exists d p then None
      else (case map_of d p of
              Some (File c m) \<Rightarrow> Some (H c)
            | other \<Rightarrow> None))"

definition get_file_state :: "(string \<Rightarrow> string) \<Rightarrow> fs \<Rightarrow> path \<Rightarrow> bool \<Rightarrow> FileState" where
  "get_file_state H d p compute_hash =
     (case map_of d p of
        None \<Rightarrow> \<lparr>fs_exists = False, fs_file_size = 0, fs_modified_time = 0, fs_file_hash = None\<rparr>
      | Some n \<Rightarrow>
          \<lparr>fs_exists = True, fs_file_size = st_size n, fs_modified_time = st_mtime n,
           fs_file_hash = (if compute_hash then compute_file_hash H d p else None)\<rparr>)"

text \<open>Python truthiness of an \<^verbatim>\<open>Optional[str]\<close>: neither \<^verbatim>\<open>None\<close> nor empty.\<close>

fun truthy :: "string option \<Rightarrow> bool" where
  "truthy None = False"
| "truthy (Some s) = (s \<noteq> [])"

definition check_file_status ::
  "(string \<Rightarrow> string) \<Rightarrow> fs \<Rightarrow> TrackedFile \<Rightarrow> bool \<Rightarrow> FileStatus" where
  "check_file_status H d tracked_file use_hash =
     (let state = get_file_state H d (file_path tracked_file) False in
      if \<not> fs_exists state then MISSING
      else if fs_file_size state \<noteq> file_size tracked_file
              \<or> fs_modified_time state \<noteq> modified_time tracked_file
      then (if use_hash \<and> truthy (file_hash tracked_file)
            then (let current_hash = compute_file_hash H d (file_path tracked_file) in
                  if truthy current_hash \<and> current_hash = file_hash tracked_file
                  then OK else MODIFIED)
            else MODIFIED)
      else OK)"

section \<open>Example states for the verification engine\<close>

text \<open>
  The five scenarios of the specification: a file stored with size 100 and modification
  time 1000, against (a) an untouched disk, (b) a later modification time with the same
  bytes, (c) a later modification time with other bytes, (d) no file, (e) a later
  modification time and no stored hash.  The digest used here is the identity.
\<close>

definition stored_file :: "string option \<Rightarrow> TrackedFile" where
  "stored_file h =
     \<lparr>tf_id = ''f1'', display_name = ''a.txt'', file_path = [''/'', ''d'', ''a.txt''],
      file_size = 100, modified_time = 1000, status = OK, created_at = ''t0'',
      file_hash = h, is_favorite = False, is_archived = False, project_id = None\<rparr>"

definition disk_with :: "string \<Rightarrow> rat \<Rightarrow> fs" where
  "disk_with c m = [([''/'', ''d''], Dir 0 0), ([''/'', ''d'', ''a.txt''], File c m)]"

section \<open>Paths (pathlib, POSIX flavour)\<close>

text \<open>
  A path is the list of its parts, as \<^verbatim>\<open>PurePosixPath.parts\<close> gives them: an absolute
  path starts with the part \<^verbatim>\<open>/\<close>.  Parsing a string drops empty parts and the
  part \<^verbatim>\<open>.\<close>; \<^verbatim>\<open>stem\<close> and \<^verbatim>\<open>suffix\<close> split the last part at its last dot when
  that dot is neither its first nor its last character (CPython 3.9 to 3.13).  The
  special root of exactly two leading slashes is read as the ordinary root.
\<close>

fun split_on :: "char \<Rightarrow> string \<Rightarrow> string list" where
  "split_on c [] = [[]]"
| "split_on c (x # xs) =
     (if x = c then [] # split_on c xs
      else (case split_on c xs of [] \<Rightarrow> [[x]] | w # ws \<Rightarrow> (x # w) # ws))"

definition Path :: "string \<Rightarrow> path" where
  "Path s = (if s \<noteq> [] \<and> hd s = CHR ''/'' then [''/''] else [])
            @ filter (\<lambda>w. w \<noteq> [] \<and> w \<noteq> ''.'') (split_on CHR ''/'' s)"

definition path_name :: "path \<Rightarrow> string" where
  "path_name p = (if p = [] \<or> p = [''/''] then [] else last p)"

definition path_parent :: "path \<Rightarrow> path" where
  "path_parent p = (if p = [] \<or> p = [''/''] then p else butlast p)"

definition joinpath :: "path \<Rightarrow> string \<Rightarrow> path" where
  "joinpath p s = (let q = Path s in if q \<noteq> [] \<and> hd q = ''/'' then q else p @ q)"

text \<open>The text of a path, \<^verbatim>\<open>str(path)\<close>.\<close>

fun join_parts :: "string list \<Rightarrow> string" where
  "join_parts [] = []"
| "join_parts [w] = w"
| "join_parts (w # ws) = w @ ''/'' @ join_parts ws"

definition path_str :: "path \<Rightarrow> string" where
  "path_str p =
     (if p = [] then ''.''
      else if hd p = ''/'' then ''/'' @ join_parts (tl p)
      else join_parts p)"

definition rfind_dot :: "string \<Rightarrow> nat option" where
  "rfind_dot s =
     (let k = length (takeWhile (\<lambda>c. c \<noteq> CHR ''.'') (rev s))
      in if k = length s then None else Some (length s - 1 - k))"

definition suffix_at :: "string \<Rightarrow> nat option" where
  "suffix_at nm =
     (case rfind_dot nm of
        None \<Rightarrow> None
      | Some i \<Rightarrow> if 0 < i \<and> i < length nm - 1 then Some i else None)"

definition path_suffix :: "string \<Rightarrow> string" where
  "path_suffix nm = (case suffix_at nm of None \<Rightarrow> [] | Some i \<Rightarrow> drop i nm)"

definition path_stem :: "string \<Rightarrow> string" where
  "path_stem nm = (case suffix_at nm of None \<Rightarrow> nm | Some i \<Rightarrow> take i nm)"

text \<open>The decimal text of an integer, as an f-string formats it.\<close>

fun show_nat :: "nat \<Rightarrow> string" where
  "show_nat n =
     (if n < 10 then [''0123456789'' ! n]
      else show_nat (n div 10) @ [''0123456789'' ! (n mod 10)])"

declare show_nat.simps [simp del]

definition show_int :: "int \<Rightarrow> string" where
  "show_int i = (if i < 0 then CHR ''-'' # show_nat (nat (- i)) else show_nat (nat i))"

section \<open>File-system operations (os, pathlib, shutil)\<close>

definition fs_remove :: "path \<Rightarrow> fs \<Rightarrow> fs" where
  "fs_remove p d = filter (\<lambda>e. fst e \<noteq> p) d"

definition fs_put :: "path \<Rightarrow> node \<Rightarrow> fs \<Rightarrow> fs" where
  "fs_put p n d = (p, n) # fs_remove p d"

text \<open>
  \<^verbatim>\<open>Path.mkdir(parents=True, exist_ok=True)\<close>: every missing ancestor and the directory
  itself are created; a regular file on the way raises.  What \<^verbatim>\<open>stat\<close> reports for a
  fresh directory is not modelled and recorded as zero.
\<close>

fun mkdirs :: "fs \<Rightarrow> path list \<Rightarrow> py_error + fs" where
  "mkdirs d [] = Inr d"
| "mkdirs d (q # qs) =
     (case map_of d q of
        None \<Rightarrow> mkdirs (fs_put q (Dir 0 0) d) qs
      | Some (Dir s m) \<Rightarrow> mkdirs d qs
      | Some (File c m) \<Rightarrow> Inl OSError)"

definition mkdir_parents :: "fs \<Rightarrow> path \<Rightarrow> py_error + fs" where
  "mkdir_parents d p = mkdirs d (tl (prefixes p))"

text \<open>
  \<^verbatim>\<open>shutil.copy2(src, dst)\<close>: a destination that is a directory stands for the file of
  the source's name inside it; the source must be a regular file; the destination is
  overwritten when it is a regular file and created when its parent is a directory.  The
  bytes and the modification time are copied.
\<close>

definition copy2 :: "fs \<Rightarrow> path \<Rightarrow> path \<Rightarrow> py_error + fs" where
  "copy2 d src dst =
     (let dst' = (if is_dir d dst then dst @ [path_name src] else dst) in
      case map_of d src of
        Some (File c m) \<Rightarrow>
          (if dst' = src then Inl OSError
           else (case map_of d dst' of
                   Some (File c' m') \<Rightarrow> Inr (fs_put dst' (File c m) d)
                 | Some (Dir s' m') \<Rightarrow> Inl OSError
                 | None \<Rightarrow>
                     if is_dir d (path_parent dst') then Inr (fs_put dst' (File c m) d)
                     else Inl FileNotFoundError))
      | other \<Rightarrow> Inl OSError)"





section \<open>Metadata store (database/db_manager.py)\<close>

text \<open>
  The tables that hold rows of a tracked file.  A row of \<^verbatim>\<open>metadata\<close> is its key and
  its JSON text; a row of \<^verbatim>\<open>tag_links\<close> is its tag and its file.  The identifiers
  (\<^verbatim>\<open>uuid4\<close>) and time stamps (\<^verbatim>\<open>datetime.now\<close>) that an operation draws are
  arguments of its model.
\<close>

record Tag =
  t_id :: string
  t_name :: string
  t_created_at :: string

record Project =
  p_id :: string
  p_name :: string
  p_description :: "string option"
  color :: string
  p_created_at :: string

record db =
  files :: "TrackedFile list"
  versions :: "Version list"
  events :: "Event list"
  metadata :: "(string \<times> string) list"
  tags :: "Tag list"
  tag_links :: "(string \<times> string) list"
  projects :: "Project list"

definition empty_db :: db where
  "empty_db = \<lparr>files = [], versions = [], events = [], metadata = [], tags = [],
               tag_links = [], projects = []\<rparr>"

definition get_file :: "db \<Rightarrow> string \<Rightarrow> TrackedFile option" where
  "get_file s fid = find (\<lambda>f. tf_id f = fid) (files s)"

definition get_file_by_path :: "db \<Rightarrow> path \<Rightarrow> TrackedFile option" where
  "get_file_by_path s p = find (\<lambda>f. file_path f = p) (files s)"

text \<open>
  \<^verbatim>\<open>ORDER BY created_at DESC\<close> compares the time stamps as text.  SQL leaves the order of
  rows with equal keys open; here they keep the order of the table.
\<close>

definition order_by_created_at_desc :: "TrackedFile list \<Rightarrow> TrackedFile list" where
  "order_by_created_at_desc rows = rev (sort_key created_at (rev rows))"

definition get_all_files :: "db \<Rightarrow> bool \<Rightarrow> TrackedFile list" where
  "get_all_files s include_archived =
     order_by_created_at_desc
       (if include_archived then files s else filter (\<lambda>f. \<not> is_archived f) (files s))"

text \<open>
  \<^verbatim>\<open>create_file\<close>: the insert fails on the primary key \<^verbatim>\<open>id\<close> and on the unique
  column \<^verbatim>\<open>file_path\<close>.
\<close>

definition create_file ::
  "db \<Rightarrow> string \<Rightarrow> string \<Rightarrow> string \<Rightarrow> path \<Rightarrow> nat \<Rightarrow> rat \<Rightarrow> string option
   \<Rightarrow> py_error + (db \<times> TrackedFile)" where
  "create_file s new_id now dname fpath fsize mtime fhash =
     (let tracked_file =
        \<lparr>tf_id = new_id, display_name = dname, file_path = fpath, file_size = fsize,
         modified_time = mtime, status = OK, created_at = now, file_hash = fhash,
         is_favorite = False, is_archived = False, project_id = None\<rparr>
      in if list_ex (\<lambda>f. tf_id f = new_id \<or> file_path f = fpath) (files s)
         then Inl IntegrityError
         else Inr (s\<lparr>files := files s @ [tracked_file]\<rparr>, tracked_file))"

definition update_file_status :: "db \<Rightarrow> string \<Rightarrow> FileStatus \<Rightarrow> db" where
  "update_file_status s fid st =
     s\<lparr>files := map (\<lambda>f. if tf_id f = fid then f\<lparr>status := st\<rparr> else f) (files s)\<rparr>"

definition update_file_metadata ::
  "db \<Rightarrow> string \<Rightarrow> nat \<Rightarrow> rat \<Rightarrow> FileStatus \<Rightarrow> string option \<Rightarrow> db" where
  "update_file_metadata s fid fsize mtime st fhash =
     s\<lparr>files := map (\<lambda>f. if tf_id f = fid
                          then f\<lparr>file_size := fsize, modified_time := mtime, status := st,
                                 file_hash := fhash\<rparr>
                          else f) (files s)\<rparr>"

text \<open>
  \<^verbatim>\<open>update_file_location\<close>: the update fails when another row already holds the new
  path (\<^verbatim>\<open>file_path\<close> is unique).
\<close>

definition update_file_location ::
  "db \<Rightarrow> string \<Rightarrow> path \<Rightarrow> nat \<Rightarrow> rat \<Rightarrow> FileStatus \<Rightarrow> string option \<Rightarrow> py_error + db" where
  "update_file_location s fid fpath fsize mtime st fhash =
     (if list_ex (\<lambda>f. tf_id f = fid) (files s)
         \<and> list_ex (\<lambda>f. tf_id f \<noteq> fid \<and> file_path f = fpath) (files s)
      then Inl IntegrityError
      else Inr (s\<lparr>files := map (\<lambda>f. if tf_id f = fid
                                  then f\<lparr>file_path := fpath, file_size := fsize,
                                         modified_time := mtime, status := st,
                                         file_hash := fhash\<rparr>
                                  else f) (files s)\<rparr>))"

definition update_display_name :: "db \<Rightarrow> string \<Rightarrow> string \<Rightarrow> db" where
  "update_display_name s fid dname =
     s\<lparr>files := map (\<lambda>f. if tf_id f = fid then f\<lparr>display_name := dname\<rparr> else f) (files s)\<rparr>"

text \<open>
  \<^verbatim>\<open>_get_connection\<close> is \<^verbatim>\<open>sqlite3.connect(self.db_path)\<close> and nothing else: no
  connection ever runs \<^verbatim>\<open>PRAGMA foreign_keys = ON\<close>, and SQLite enforces foreign keys
  only on a connection that did.  The \<^verbatim>\<open>ON DELETE CASCADE\<close> clauses of the schema are
  therefore inert.  The flag is an argument of the row deletion, so that both behaviours
  can be read off the model.
\<close>

definition connection_foreign_keys :: bool where
  "connection_foreign_keys = False"

definition delete_from_files :: "bool \<Rightarrow> string \<Rightarrow> db \<Rightarrow> db" where
  "delete_from_files fk fid s =
     (let s' = s\<lparr>files := filter (\<lambda>f. tf_id f \<noteq> fid) (files s)\<rparr>
      in if fk \<and> list_ex (\<lambda>f. tf_id f = fid) (files s)
         then s'\<lparr>versions := filter (\<lambda>v. v_file_id v \<noteq> fid) (versions s'),
                 events := filter (\<lambda>e. e_file_id e \<noteq> fid) (events s'),
                 metadata := filter (\<lambda>m. fst m \<noteq> fid) (metadata s'),
                 tag_links := filter (\<lambda>l. snd l \<noteq> fid) (tag_links s')\<rparr>
         else s')"

definition delete_file :: "db \<Rightarrow> string \<Rightarrow> db" where
  "delete_file s fid =
     (let s1 = s\<lparr>versions := filter (\<lambda>v. v_file_id v \<noteq> fid) (versions s)\<rparr>;
          s2 = s1\<lparr>metadata := filter (\<lambda>m. fst m \<noteq> fid) (metadata s1)\<rparr>
      in delete_from_files connection_foreign_keys fid s2)"

text \<open>\<^verbatim>\<open>SELECT MAX(version_number)\<close>: \<^verbatim>\<open>NULL\<close> over no rows.\<close>

fun sql_max :: "int list \<Rightarrow> int option" where
  "sql_max [] = None"
| "sql_max (x # xs) = Some (fold max xs x)"

definition get_next_version_number :: "db \<Rightarrow> string \<Rightarrow> int" where
  "get_next_version_number s fid =
     (let result = sql_max (map version_number (filter (\<lambda>v. v_file_id v = fid) (versions s)))
      in (case result of None \<Rightarrow> 0 | Some m \<Rightarrow> if m = 0 then 0 else m) + 1)"

text \<open>
  \<^verbatim>\<open>create_version\<close>: the number is read with \<^verbatim>\<open>get_next_version_number\<close> and the
  row is inserted with it.  Python integers are unbounded and SQLite's are 64-bit: binding
  a number outside that range raises \<^verbatim>\<open>OverflowError\<close> before the statement runs.
  File sizes are below \<open>2\<^sup>6\<^sup>3\<close> on every file system and are not checked here.  The id
  and the time stamp, which the code draws from \<^verbatim>\<open>uuid4\<close> and the clock, are parameters;
  the primary key refuses an id already present.
\<close>

definition create_version ::
  "db \<Rightarrow> string \<Rightarrow> string \<Rightarrow> string \<Rightarrow> string \<Rightarrow> nat \<Rightarrow> rat \<Rightarrow> string option
   \<Rightarrow> py_error + (db \<times> Version)" where
  "create_version s new_id now fid msg fsize mtime fhash =
     (let n = get_next_version_number s fid;
          version =
            \<lparr>v_id = new_id, v_file_id = fid, version_number = n, commit_message = msg,
             v_file_size = fsize, v_modified_time = mtime, v_created_at = now,
             v_file_hash = fhash, is_pinned = False, pinned_path = None\<rparr>
      in if n < - 9223372036854775808 \<or> 9223372036854775807 < n then Inl OverflowError
         else if list_ex (\<lambda>v. v_id v = new_id) (versions s) then Inl IntegrityError
         else Inr (s\<lparr>versions := versions s @ [version]\<rparr>, version))"


definition set_version_pinned :: "db \<Rightarrow> string \<Rightarrow> int \<Rightarrow> bool \<Rightarrow> path option \<Rightarrow> db" where
  "set_version_pinned s fid n pinned ppath =
     s\<lparr>versions := map (\<lambda>v. if v_file_id v = fid \<and> version_number v = n
                             then v\<lparr>is_pinned := pinned, pinned_path := ppath\<rparr>
                             else v) (versions s)\<rparr>"

definition create_event ::
  "db \<Rightarrow> string \<Rightarrow> string \<Rightarrow> string \<Rightarrow> EventType \<Rightarrow> string option \<Rightarrow> py_error + (db \<times> Event)" where
  "create_event s new_id now fid ty descr =
     (let event = \<lparr>e_id = new_id, e_file_id = fid, event_type = ty, description = descr,
                   e_created_at = now\<rparr>
      in if list_ex (\<lambda>e. e_id e = new_id) (events s) then Inl IntegrityError
         else Inr (s\<lparr>events := events s @ [event]\<rparr>, event))"

definition delete_events_for_file :: "db \<Rightarrow> string \<Rightarrow> db \<times> nat" where
  "delete_events_for_file s fid =
     (s\<lparr>events := filter (\<lambda>e. e_file_id e \<noteq> fid) (events s)\<rparr>,
      length (filter (\<lambda>e. e_file_id e = fid) (events s)))"

definition set_metadata :: "db \<Rightarrow> string \<Rightarrow> string \<Rightarrow> db" where
  "set_metadata s fid payload =
     (if list_ex (\<lambda>m. fst m = fid) (metadata s)
      then s\<lparr>metadata := map (\<lambda>m. if fst m = fid then (fid, payload) else m) (metadata s)\<rparr>
      else s\<lparr>metadata := metadata s @ [(fid, payload)]\<rparr>)"

definition add_tag_to_file :: "db \<Rightarrow> string \<Rightarrow> string \<Rightarrow> db" where
  "add_tag_to_file s tag_id fid =
     (if list_ex (\<lambda>l. l = (tag_id, fid)) (tag_links s) then s
      else s\<lparr>tag_links := tag_links s @ [(tag_id, fid)]\<rparr>)"

definition remove_tag_from_file :: "db \<Rightarrow> string \<Rightarrow> string \<Rightarrow> db" where
  "remove_tag_from_file s tag_id fid =
     s\<lparr>tag_links := filter (\<lambda>l. l \<noteq> (tag_id, fid)) (tag_links s)\<rparr>"

text \<open>
  \<^verbatim>\<open>Tag.normalize\<close> on ASCII text (characters below 128): surrounding white space and
  one leading \<^verbatim>\<open>#\<close> are removed, capitals become small letters.  The white space of
  \<^verbatim>\<open>str.strip\<close> in that range is the blank, the characters 9 to 13 and the separators
  28 to 31.
\<close>

definition is_space :: "char \<Rightarrow> bool" where
  "is_space c = (c \<in> set [CHR '' '', CHR 0x09, CHR 0x0A, CHR 0x0B, CHR 0x0C, CHR 0x0D,
                            CHR 0x1C, CHR 0x1D, CHR 0x1E, CHR 0x1F])"

definition strip :: "string \<Rightarrow> string" where
  "strip s = rev (dropWhile is_space (rev (dropWhile is_space s)))"

definition lower_char :: "char \<Rightarrow> char" where
  "lower_char c =
     (let n = (of_char c :: nat)
      in if 65 \<le> n \<and> n \<le> 90 then char_of (n + 32) else c)"

definition lower :: "string \<Rightarrow> string" where
  "lower s = map lower_char s"

definition normalize :: "string \<Rightarrow> string" where
  "normalize tag_name =
     (let nm = strip tag_name;
          nm' = (if nm \<noteq> [] \<and> hd nm = CHR ''#'' then tl nm else nm)
      in lower nm')"

definition get_or_create_tag :: "db \<Rightarrow> string \<Rightarrow> string \<Rightarrow> string \<Rightarrow> py_error + (db \<times> Tag)" where
  "get_or_create_tag s new_id now tag_name =
     (let normalized_name = normalize tag_name in
      case find (\<lambda>t. t_name t = normalized_name) (tags s) of
        Some t \<Rightarrow> Inr (s, t)
      | None \<Rightarrow>
          (let t = \<lparr>t_id = new_id, t_name = normalized_name, t_created_at = now\<rparr>
           in if list_ex (\<lambda>u. t_id u = new_id) (tags s) then Inl IntegrityError
              else Inr (s\<lparr>tags := tags s @ [t]\<rparr>, t)))"

definition delete_unused_tags :: "db \<Rightarrow> db \<times> nat" where
  "delete_unused_tags s =
     (s\<lparr>tags := filter (\<lambda>t. t_id t \<in> set (map fst (tag_links s))) (tags s)\<rparr>,
      length (filter (\<lambda>t. t_id t \<notin> set (map fst (tag_links s))) (tags s)))"

definition set_favorite :: "db \<Rightarrow> string \<Rightarrow> bool \<Rightarrow> db" where
  "set_favorite s fid fav =
     s\<lparr>files := map (\<lambda>f. if tf_id f = fid then f\<lparr>is_favorite := fav\<rparr> else f) (files s)\<rparr>"

definition toggle_favorite :: "db \<Rightarrow> string \<Rightarrow> db \<times> bool" where
  "toggle_favorite s fid =
     (let s' = s\<lparr>files := map (\<lambda>f. if tf_id f = fid then f\<lparr>is_favorite := \<not> is_favorite f\<rparr>
                                      else f) (files s)\<rparr>
      in (s', (case get_file s' fid of None \<Rightarrow> False | Some f \<Rightarrow> is_favorite f)))"

definition set_archived :: "db \<Rightarrow> string \<Rightarrow> bool \<Rightarrow> db" where
  "set_archived s fid arch =
     s\<lparr>files := map (\<lambda>f. if tf_id f = fid then f\<lparr>is_archived := arch\<rparr> else f) (files s)\<rparr>"

definition unarchive_file :: "db \<Rightarrow> string \<Rightarrow> db" where
  "unarchive_file s fid = set_archived s fid False"

definition create_project ::
  "db \<Rightarrow> string \<Rightarrow> string \<Rightarrow> string \<Rightarrow> string option \<Rightarrow> string \<Rightarrow> py_error + (db \<times> Project)" where
  "create_project s new_id now nm descr col =
     (let p = \<lparr>p_id = new_id, p_name = nm, p_description = descr, color = col,
               p_created_at = now\<rparr>
      in if list_ex (\<lambda>q. p_id q = new_id) (projects s) then Inl IntegrityError
         else Inr (s\<lparr>projects := projects s @ [p]\<rparr>, p))"

definition update_project ::
  "db \<Rightarrow> string \<Rightarrow> string option \<Rightarrow> string option \<Rightarrow> string option \<Rightarrow> db" where
  "update_project s pid nm descr col =
     s\<lparr>projects := map (\<lambda>p. if p_id p = pid
                             then p\<lparr>p_name := (case nm of None \<Rightarrow> p_name p | Some n \<Rightarrow> n),
                                    p_description :=
                                      (case descr of None \<Rightarrow> p_description p | Some x \<Rightarrow> Some x),
                                    color := (case col of None \<Rightarrow> color p | Some c \<Rightarrow> c)\<rparr>
                             else p) (projects s)\<rparr>"

definition delete_project :: "db \<Rightarrow> string \<Rightarrow> db" where
  "delete_project s pid =
     s\<lparr>files := map (\<lambda>f. if project_id f = Some pid then f\<lparr>project_id := None\<rparr> else f)
                    (files s),
       projects := filter (\<lambda>p. p_id p \<noteq> pid) (projects s)\<rparr>"

definition set_file_project :: "db \<Rightarrow> string \<Rightarrow> string option \<Rightarrow> db" where
  "set_file_project s fid pid =
     s\<lparr>files := map (\<lambda>f. if tf_id f = fid then f\<lparr>project_id := pid\<rparr> else f) (files s)\<rparr>"

text \<open>
  Every operation of the store that writes, as one type, so that a property of all of them
  can be stated once.
\<close>

datatype store_write =
    W_create_file string string string path nat rat "string option"
  | W_update_file_status string FileStatus
  | W_update_file_metadata string nat rat FileStatus "string option"
  | W_update_file_location string path nat rat FileStatus "string option"
  | W_update_display_name string string
  | W_delete_file string
  | W_create_version string string string string nat rat "string option"
  | W_set_version_pinned string int bool "path option"
  | W_get_or_create_tag string string string
  | W_add_tag_to_file string string
  | W_remove_tag_from_file string string
  | W_delete_unused_tags
  | W_set_favorite string bool
  | W_toggle_favorite string
  | W_set_archived string bool
  | W_unarchive_file string
  | W_set_metadata string string
  | W_create_event string string string EventType "string option"
  | W_delete_events_for_file string
  | W_create_project string string string "string option" string
  | W_update_project string "string option" "string option" "string option"
  | W_delete_project string
  | W_set_file_project string "string option"

fun run_write :: "db \<Rightarrow> store_write \<Rightarrow> py_error + db" where
  "run_write s (W_create_file i now dn fp sz mt h) = map_sum id fst (create_file s i now dn fp sz mt h)"
| "run_write s (W_update_file_status fid st) = Inr (update_file_status s fid st)"
| "run_write s (W_update_file_metadata fid sz mt st h) = Inr (update_file_metadata s fid sz mt st h)"
| "run_write s (W_update_file_location fid fp sz mt st h) = update_file_location s fid fp sz mt st h"
| "run_write s (W_update_display_name fid dn) = Inr (update_display_name s fid dn)"
| "run_write s (W_delete_file fid) = Inr (delete_file s fid)"
| "run_write s (W_create_version i now fid msg sz mt h) =
     map_sum id fst (create_version s i now fid msg sz mt h)"
| "run_write s (W_set_version_pinned fid n b pp) = Inr (set_version_pinned s fid n b pp)"
| "run_write s (W_get_or_create_tag i now nm) = map_sum id fst (get_or_create_tag s i now nm)"
| "run_write s (W_add_tag_to_file tid fid) = Inr (add_tag_to_file s tid fid)"
| "run_write s (W_remove_tag_from_file tid fid) = Inr (remove_tag_from_file s tid fid)"
| "run_write s W_delete_unused_tags = Inr (fst (delete_unused_tags s))"
| "run_write s (W_set_favorite fid b) = Inr (set_favorite s fid b)"
| "run_write s (W_toggle_favorite fid) = Inr (fst (toggle_favorite s fid))"
| "run_write s (W_set_archived fid b) = Inr (set_archived s fid b)"
| "run_write s (W_unarchive_file fid) = Inr (unarchive_file s fid)"
| "run_write s (W_set_metadata fid payload) = Inr (set_metadata s fid payload)"
| "run_write s (W_create_event i now fid ty descr) =
     map_sum id fst (create_event s i now fid ty descr)"
| "run_write s (W_delete_events_for_file fid) = Inr (fst (delete_events_for_file s fid))"
| "run_write s (W_create_project i now nm descr col) =
     map_sum id fst (create_project s i now nm descr col)"
| "run_write s (W_update_project pid nm descr col) = Inr (update_project s pid nm descr col)"
| "run_write s (W_delete_project pid) = Inr (delete_project s pid)"
| "run_write s (W_set_file_project fid pid) = Inr (set_file_project s fid pid)"

section \<open>Version numbers of a file, sequences of writes, and example stores\<close>

text \<open>The version numbers the store holds for a file, in row order.\<close>

definition file_version_numbers :: "db \<Rightarrow> string \<Rightarrow> int list" where
  "file_version_numbers s fid =
     map version_number (filter (\<lambda>v. v_file_id v = fid) (versions s))"

text \<open>
  A sequence of writes, run one after the other on the store, each committed before the
  next begins; the first one that raises ends the run.  A write that raises leaves the
  store as it was, so that a history with failed writes is the run of its successful ones.
\<close>

fun run_writes :: "db \<Rightarrow> store_write list \<Rightarrow> py_error + db" where
  "run_writes s [] = Inr s"
| "run_writes s (w # ws) =
     (case run_write s w of
        Inl e \<Rightarrow> Inl e
      | Inr s' \<Rightarrow> run_writes s' ws)"

text \<open>Whether a write is a \<^verbatim>\<open>create_version\<close> for the given file.\<close>

fun creates_version_of :: "string \<Rightarrow> store_write \<Rightarrow> bool" where
  "creates_version_of fid (W_create_version i now fid' msg sz mt h) = (fid' = fid)"
| "creates_version_of fid other = False"

text \<open>
  An example: a file is registered with its first version, another file gets a version, the
  first file is pinned, verified and given two more versions, and the other file is
  deleted.
\<close>

definition ex_writes :: "store_write list" where
  "ex_writes =
     [W_create_file ''f1'' ''t0'' ''a.txt'' [''/'', ''d'', ''a.txt''] 100 1000 None,
      W_create_version ''v1'' ''t1'' ''f1'' ''first'' 100 1000 None,
      W_create_file ''f2'' ''t2'' ''b.txt'' [''/'', ''d'', ''b.txt''] 5 1000 None,
      W_create_version ''w1'' ''t3'' ''f2'' ''other'' 5 1000 None,
      W_set_version_pinned ''f1'' 1 True (Some [''/'', ''pins'', ''a.txt'']),
      W_update_file_status ''f1'' MODIFIED,
      W_create_version ''v2'' ''t4'' ''f1'' ''second'' 120 2000 None,
      W_delete_file ''f2'',
      W_create_version ''v3'' ''t5'' ''f1'' ''third'' 130 3000 None]"

definition first_event :: Event where
  "first_event = \<lparr>e_id = ''e1'', e_file_id = ''f1'', event_type = VERIFY_OK,
                   description = None, e_created_at = ''t1''\<rparr>"

definition store_with_event :: db where
  "store_with_event = empty_db\<lparr>files := [stored_file None], events := [first_event]\<rparr>"



section \<open>Version and backup manager (core/file_service.py)\<close>

text \<open>
  The service holds the directory of the backups and, when configured, the directory of
  the pins.  Its methods work on the store and the disk; each model takes both and returns
  them with its result, or the exception raised.
\<close>

record FileService =
  versions_dir :: path
  pin_storage_path :: "path option"

definition get_version_dir :: "FileService \<Rightarrow> string \<Rightarrow> path" where
  "get_version_dir sv file_id = joinpath (versions_dir sv) file_id"

definition version_file_name :: "string \<Rightarrow> int \<Rightarrow> string" where
  "version_file_name original_name n =
     (let nm = path_name (Path original_name)
      in path_stem nm @ ''_v'' @ show_int n @ path_suffix nm)"

definition legacy_file_name :: "string \<Rightarrow> int \<Rightarrow> string" where
  "legacy_file_name original_name n =
     ''v'' @ show_int n @ path_suffix (path_name (Path original_name))"

definition pinned_file_name :: "string \<Rightarrow> int \<Rightarrow> string" where
  "pinned_file_name dname n =
     (let nm = path_name (Path dname)
      in path_stem nm @ ''_v'' @ show_int n @ ''_pinned'' @ path_suffix nm)"

definition get_version_path ::
  "FileService \<Rightarrow> fs \<Rightarrow> string \<Rightarrow> int \<Rightarrow> string \<Rightarrow> py_error + (fs \<times> path)" where
  "get_version_path sv d file_id n original_name =
     (let version_dir = get_version_dir sv file_id in
      case mkdir_parents d version_dir of
        Inl e \<Rightarrow> Inl e
      | Inr d' \<Rightarrow> Inr (d', joinpath version_dir (version_file_name original_name n)))"

definition get_legacy_version_path :: "FileService \<Rightarrow> string \<Rightarrow> int \<Rightarrow> string \<Rightarrow> path" where
  "get_legacy_version_path sv file_id n original_name =
     joinpath (get_version_dir sv file_id) (legacy_file_name original_name n)"

definition backup_file ::
  "FileService \<Rightarrow> fs \<Rightarrow> path \<Rightarrow> string \<Rightarrow> int \<Rightarrow> py_error + (fs \<times> path)" where
  "backup_file sv d source file_id n =
     (case get_version_path sv d file_id n (path_name source) of
        Inl e \<Rightarrow> Inl e
      | Inr (d1, backup_path) \<Rightarrow>
          (case copy2 d1 source backup_path of
             Inl e \<Rightarrow> Inl e
           | Inr d2 \<Rightarrow> Inr (d2, backup_path)))"

text \<open>
  \<^verbatim>\<open>register_file\<close>.  The identifiers and time stamps drawn for the file row and the
  version row are arguments.
\<close>

definition register_file ::
  "(string \<Rightarrow> string) \<Rightarrow> FileService \<Rightarrow> db \<Rightarrow> fs \<Rightarrow> path \<Rightarrow> string \<Rightarrow> string option
   \<Rightarrow> string \<Rightarrow> string \<Rightarrow> string \<Rightarrow> string
   \<Rightarrow> py_error + ((TrackedFile \<times> Version) \<times> db \<times> fs)" where
  "register_file H sv s d fpath commit_msg dname file_uuid file_now version_uuid version_now =
     (if \<not> path_exists d fpath then Inl FileNotFoundError
      else (case get_file_by_path s fpath of
        Some existing \<Rightarrow> Inl ValueError
      | None \<Rightarrow>
         (let state = get_file_state H d fpath True;
              dname' = (case dname of None \<Rightarrow> path_name fpath | Some x \<Rightarrow> x)
          in case create_file s file_uuid file_now dname' fpath (fs_file_size state)
                    (fs_modified_time state) (fs_file_hash state) of
               Inl e \<Rightarrow> Inl e
             | Inr (s1, tracked_file) \<Rightarrow>
          (case create_version s1 version_uuid version_now (tf_id tracked_file) commit_msg
                    (fs_file_size state) (fs_modified_time state) (fs_file_hash state) of
               Inl e \<Rightarrow> Inl e
             | Inr (s2, version) \<Rightarrow>
          (case backup_file sv d fpath (tf_id tracked_file) (version_number version) of
               Inl e \<Rightarrow> Inl e
             | Inr (d1, bp) \<Rightarrow> Inr ((tracked_file, version), s2, d1))))))"

definition verify_file ::
  "(string \<Rightarrow> string) \<Rightarrow> db \<Rightarrow> fs \<Rightarrow> string \<Rightarrow> py_error + (FileStatus \<times> db)" where
  "verify_file H s d file_id =
     (case get_file s file_id of
        None \<Rightarrow> Inl ValueError
      | Some tracked_file \<Rightarrow>
          (let new_status = check_file_status H d tracked_file True;
               hash_now = compute_file_hash H d (file_path tracked_file)
           in if \<not> truthy (file_hash tracked_file) \<and> new_status \<noteq> MISSING \<and> truthy hash_now
              then Inr (new_status,
                        update_file_metadata s file_id (file_size tracked_file)
                          (modified_time tracked_file) new_status hash_now)
              else if new_status \<noteq> status tracked_file
              then Inr (new_status, update_file_status s file_id new_status)
              else Inr (new_status, s)))"

definition create_new_version ::
  "(string \<Rightarrow> string) \<Rightarrow> FileService \<Rightarrow> db \<Rightarrow> fs \<Rightarrow> string \<Rightarrow> string \<Rightarrow> string \<Rightarrow> string
   \<Rightarrow> py_error + (Version \<times> db \<times> fs)" where
  "create_new_version H sv s d file_id commit_msg version_uuid version_now =
     (case get_file s file_id of
        None \<Rightarrow> Inl ValueError
      | Some tracked_file \<Rightarrow>
          (let state = get_file_state H d (file_path tracked_file) True in
           if \<not> fs_exists state then Inl ValueError
           else (case create_version s version_uuid version_now file_id commit_msg
                        (fs_file_size state) (fs_modified_time state) (fs_file_hash state) of
                   Inl e \<Rightarrow> Inl e
                 | Inr (s1, version) \<Rightarrow>
                (case backup_file sv d (file_path tracked_file) file_id
                        (version_number version) of
                   Inl e \<Rightarrow> Inl e
                 | Inr (d1, bp) \<Rightarrow>
                     Inr (version,
                          update_file_metadata s1 file_id (fs_file_size state)
                            (fs_modified_time state) OK (fs_file_hash state),
                          d1)))))"

text \<open>
  \<^verbatim>\<open>get_version_backup_path\<close>: the canonical name, made from the display name of the
  file, is looked up first, then the legacy name.  Computing the canonical path creates
  the backup directory of the file when it is missing.
\<close>

definition get_version_backup_path ::
  "FileService \<Rightarrow> db \<Rightarrow> fs \<Rightarrow> string \<Rightarrow> int \<Rightarrow> py_error + (fs \<times> path option)" where
  "get_version_backup_path sv s d file_id n =
     (case get_file s file_id of
        None \<Rightarrow> Inr (d, None)
      | Some tracked_file \<Rightarrow>
          (case get_version_path sv d file_id n (display_name tracked_file) of
             Inl e \<Rightarrow> Inl e
           | Inr (d1, backup_path) \<Rightarrow>
               if path_exists d1 backup_path then Inr (d1, Some backup_path)
               else (let legacy_path =
                           get_legacy_version_path sv file_id n (display_name tracked_file)
                     in if path_exists d1 legacy_path then Inr (d1, Some legacy_path)
                        else Inr (d1, None))))"

definition restore_version ::
  "(string \<Rightarrow> string) \<Rightarrow> FileService \<Rightarrow> db \<Rightarrow> fs \<Rightarrow> string \<Rightarrow> int
   \<Rightarrow> py_error + (bool \<times> db \<times> fs)" where
  "restore_version H sv s d file_id n =
     (case get_file s file_id of
        None \<Rightarrow> Inr (False, s, d)
      | Some tracked_file \<Rightarrow>
          (case get_version_backup_path sv s d file_id n of
             Inl e \<Rightarrow> Inl e
           | Inr (d1, None) \<Rightarrow> Inr (False, s, d1)
           | Inr (d1, Some backup_path) \<Rightarrow>
               (let target_path = file_path tracked_file in
                case copy2 d1 backup_path target_path of
                  Inl e \<Rightarrow> Inl e
                | Inr d2 \<Rightarrow>
                    (let state = get_file_state H d2 target_path True
                     in Inr (True,
                             update_file_metadata s file_id (fs_file_size state)
                               (fs_modified_time state) OK None,
                             d2)))))"

definition get_pinned_version_path ::
  "FileService \<Rightarrow> fs \<Rightarrow> string \<Rightarrow> int \<Rightarrow> string \<Rightarrow> py_error + (fs \<times> path)" where
  "get_pinned_version_path sv d file_id n dname =
     (case pin_storage_path sv of
        None \<Rightarrow> Inl ValueError
      | Some pin_root \<Rightarrow>
          (let pin_dir = joinpath pin_root file_id in
           case mkdir_parents d pin_dir of
             Inl e \<Rightarrow> Inl e
           | Inr d1 \<Rightarrow> Inr (d1, joinpath pin_dir (pinned_file_name dname n))))"

definition pin_version ::
  "FileService \<Rightarrow> db \<Rightarrow> fs \<Rightarrow> string \<Rightarrow> int \<Rightarrow> py_error + (path option \<times> db \<times> fs)" where
  "pin_version sv s d file_id n =
     (case pin_storage_path sv of
        None \<Rightarrow> Inl ValueError
      | Some pin_root \<Rightarrow>
     (case get_file s file_id of
        None \<Rightarrow> Inr (None, s, d)
      | Some tracked_file \<Rightarrow>
     (case get_version_backup_path sv s d file_id n of
        Inl e \<Rightarrow> Inl e
      | Inr (d1, None) \<Rightarrow> Inr (None, s, d1)
      | Inr (d1, Some backup_path) \<Rightarrow>
          if \<not> path_exists d1 backup_path then Inr (None, s, d1)
          else
     (case get_pinned_version_path sv d1 file_id n (display_name tracked_file) of
        Inl e \<Rightarrow> Inl e
      | Inr (d2, pinned) \<Rightarrow>
     (case copy2 d2 backup_path pinned of
        Inl e \<Rightarrow> Inl e
      | Inr d3 \<Rightarrow> Inr (Some pinned, set_version_pinned s file_id n True (Some pinned), d3))))))"


section \<open>Relink resolver (FileService.relink_missing_files)\<close>

text \<open>
  The names bound at module level in \<^verbatim>\<open>core/file_service.py\<close>: its imports (lines 2 to
  24) and its class.  A name that the body of a method reads and that is neither local nor
  in this list nor a builtin raises \<^verbatim>\<open>NameError\<close> when the read is executed.
\<close>

definition file_service_globals :: "string list" where
  "file_service_globals =
     [''os'', ''shutil'', ''subprocess'', ''sys'', ''Path'', ''Optional'', ''time'', ''json'',
      ''Image'', ''ExifTags'', ''DatabaseManager'', ''TrackedFile'', ''Version'',
      ''FileStatus'', ''Tag'', ''get_file_state'', ''check_file_status'',
      ''compute_file_hash'', ''verify_file_hash'', ''VerificationResult'', ''FileService'']"

record summary =
  checked :: nat
  relinked :: nat
  not_found :: nat
  scanned :: nat
  hash_checked :: nat
  size_filtered :: nat
  date_filtered :: nat

record candidate =
  cand_path :: path
  cand_size :: nat
  cand_mtime :: rat

text \<open>The index: file name to candidates, keys in the order of their first insertion.\<close>

type_synonym index = "(string \<times> candidate list) list"

definition index_append :: "string \<Rightarrow> candidate \<Rightarrow> index \<Rightarrow> index" where
  "index_append nm entry idx =
     (if list_ex (\<lambda>kv. fst kv = nm) idx
      then map (\<lambda>kv. if fst kv = nm then (fst kv, snd kv @ [entry]) else kv) idx
      else idx @ [(nm, [entry])])"

definition index_get :: "index \<Rightarrow> string \<Rightarrow> candidate list" where
  "index_get idx nm = (case map_of idx nm of None \<Rightarrow> [] | Some entries \<Rightarrow> entries)"

text \<open>The three filters, each with Python's truthiness test of its option.\<close>

definition file_ext :: "string \<Rightarrow> string" where
  "file_ext nm = dropWhile (\<lambda>c. c = CHR ''.'') (lower (path_suffix (path_name (Path nm))))"

definition ext_excluded :: "string list option \<Rightarrow> string \<Rightarrow> bool" where
  "ext_excluded include_exts ext =
     (case include_exts of None \<Rightarrow> False | Some exts \<Rightarrow> exts \<noteq> [] \<and> ext \<notin> set exts)"

definition too_large :: "int option \<Rightarrow> nat \<Rightarrow> bool" where
  "too_large max_size_bytes sz =
     (case max_size_bytes of None \<Rightarrow> False | Some m \<Rightarrow> m \<noteq> 0 \<and> int sz > m)"

definition too_old :: "rat option \<Rightarrow> rat \<Rightarrow> bool" where
  "too_old cutoff_ts mt =
     (case cutoff_ts of None \<Rightarrow> False | Some c \<Rightarrow> c \<noteq> 0 \<and> mt < c)"

definition cutoff_of :: "rat \<Rightarrow> int option \<Rightarrow> rat option" where
  "cutoff_of now modified_within_days =
     (case modified_within_days of
        None \<Rightarrow> None
      | Some days \<Rightarrow> if days = 0 then None else Some (now - of_int days * 86400))"

text \<open>
  The walk.  \<^verbatim>\<open>os.walk\<close> is given by what it yields, the directories with their file
  names.  During the walk the local variable \<^verbatim>\<open>summary\<close> is not yet bound (its
  assignment follows the walk), which is the \<^verbatim>\<open>None\<close> that \<^verbatim>\<open>relink_missing_files\<close>
  passes: incrementing a counter of it raises \<^verbatim>\<open>UnboundLocalError\<close>.
\<close>

definition count_size_filtered :: "summary option \<Rightarrow> py_error + summary option" where
  "count_size_filtered sm =
     (case sm of
        None \<Rightarrow> Inl (UnboundLocalError ''summary'')
      | Some x \<Rightarrow> Inr (Some (x\<lparr>size_filtered := size_filtered x + 1\<rparr>)))"

definition count_date_filtered :: "summary option \<Rightarrow> py_error + summary option" where
  "count_date_filtered sm =
     (case sm of
        None \<Rightarrow> Inl (UnboundLocalError ''summary'')
      | Some x \<Rightarrow> Inr (Some (x\<lparr>date_filtered := date_filtered x + 1\<rparr>)))"

fun scan_names ::
  "fs \<Rightarrow> string list option \<Rightarrow> int option \<Rightarrow> rat option \<Rightarrow> path \<Rightarrow> string list
   \<Rightarrow> index \<times> summary option \<Rightarrow> py_error + (index \<times> summary option)" where
  "scan_names d include_exts max_size_bytes cutoff_ts dirpath [] acc = Inr acc"
| "scan_names d include_exts max_size_bytes cutoff_ts dirpath (nm # names) (idx, sm) =
     (if ext_excluded include_exts (file_ext nm)
      then scan_names d include_exts max_size_bytes cutoff_ts dirpath names (idx, sm)
      else (let candidate_path = joinpath dirpath nm in
            case map_of d candidate_path of
              None \<Rightarrow> scan_names d include_exts max_size_bytes cutoff_ts dirpath names (idx, sm)
            | Some st \<Rightarrow>
                if too_large max_size_bytes (st_size st)
                then (case count_size_filtered sm of
                        Inl e \<Rightarrow> Inl e
                      | Inr sm' \<Rightarrow>
                          scan_names d include_exts max_size_bytes cutoff_ts dirpath names
                            (idx, sm'))
                else if too_old cutoff_ts (st_mtime st)
                then (case count_date_filtered sm of
                        Inl e \<Rightarrow> Inl e
                      | Inr sm' \<Rightarrow>
                          scan_names d include_exts max_size_bytes cutoff_ts dirpath names
                            (idx, sm'))
                else scan_names d include_exts max_size_bytes cutoff_ts dirpath names
                       (index_append nm
                          \<lparr>cand_path = candidate_path, cand_size = st_size st,
                           cand_mtime = st_mtime st\<rparr> idx,
                        sm)))"

fun scan_walk ::
  "fs \<Rightarrow> string list option \<Rightarrow> int option \<Rightarrow> rat option \<Rightarrow> (path \<times> string list) list
   \<Rightarrow> index \<times> summary option \<Rightarrow> py_error + (index \<times> summary option)" where
  "scan_walk d include_exts max_size_bytes cutoff_ts [] acc = Inr acc"
| "scan_walk d include_exts max_size_bytes cutoff_ts ((dirpath, filenames) # rest) acc =
     (case scan_names d include_exts max_size_bytes cutoff_ts dirpath filenames acc of
        Inl e \<Rightarrow> Inl e
      | Inr acc' \<Rightarrow> scan_walk d include_exts max_size_bytes cutoff_ts rest acc')"

text \<open>
  The selection.  In hash mode the candidates are hashed in order and the first whose
  hash equals the stored one is taken; the count of hashed candidates is returned with it.
  Otherwise \<^verbatim>\<open>min\<close> takes the first candidate of least distance in modification time.
\<close>

fun hash_search ::
  "(string \<Rightarrow> string) \<Rightarrow> fs \<Rightarrow> string option \<Rightarrow> candidate list \<Rightarrow> nat
   \<Rightarrow> (candidate \<times> string option) option \<times> nat" where
  "hash_search H d stored [] k = (None, k)"
| "hash_search H d stored (entry # entries) k =
     (let cand_hash = compute_file_hash H d (cand_path entry) in
      if cand_hash = stored then (Some (entry, cand_hash), k + 1)
      else hash_search H d stored entries (k + 1))"

fun min_by :: "('a \<Rightarrow> rat) \<Rightarrow> 'a \<Rightarrow> 'a list \<Rightarrow> 'a" where
  "min_by key best [] = best"
| "min_by key best (x # xs) = min_by key (if key x < key best then x else best) xs"

text \<open>
  The key of the nearest-time selection, the absolute difference of the candidate's and
  the recorded modification time, taken exactly: the rounding of the float subtraction, which can turn two differences
  that are close into a tie, is not modelled.
\<close>

definition mtime_diff :: "TrackedFile \<Rightarrow> candidate \<Rightarrow> rat" where
  "mtime_diff tracked_file entry = \<bar>cand_mtime entry - modified_time tracked_file\<bar>"

definition candidate_entries :: "index \<Rightarrow> TrackedFile \<Rightarrow> candidate list" where
  "candidate_entries idx tracked_file =
     (let candidates = index_get idx (path_name (file_path tracked_file));
          size_matched = filter (\<lambda>c. cand_size c = file_size tracked_file) candidates
      in if size_matched \<noteq> [] then size_matched else candidates)"

definition choose_candidate ::
  "(string \<Rightarrow> string) \<Rightarrow> fs \<Rightarrow> bool \<Rightarrow> index \<Rightarrow> TrackedFile
   \<Rightarrow> (candidate \<times> string option) option \<times> nat" where
  "choose_candidate H d use_hash idx tracked_file =
     (let entries = candidate_entries idx tracked_file in
      if use_hash \<and> truthy (file_hash tracked_file)
      then hash_search H d (file_hash tracked_file) entries 0
      else (case entries of
              [] \<Rightarrow> (None, 0)
            | e # es \<Rightarrow> (Some (min_by (mtime_diff tracked_file) e es, file_hash tracked_file), 0)))"

text \<open>
  The loop over the missing files.  The store is returned with the outcome, since an
  exception leaves the updates made before it.  The identifier and time stamp of the
  \<open>k\<close>-th RELINK event are \<open>fresh k\<close>.
\<close>

fun relink_loop ::
  "(string \<Rightarrow> string) \<Rightarrow> fs \<Rightarrow> bool \<Rightarrow> index \<Rightarrow> (nat \<Rightarrow> string \<times> string)
   \<Rightarrow> db \<Rightarrow> summary \<Rightarrow> TrackedFile list \<Rightarrow> db \<times> (py_error + summary)" where
  "relink_loop H d use_hash idx fresh s sm [] = (s, Inr sm)"
| "relink_loop H d use_hash idx fresh s sm (tracked_file # rest) =
     (case choose_candidate H d use_hash idx tracked_file of
        (None, hashed) \<Rightarrow>
          relink_loop H d use_hash idx fresh s
            (sm\<lparr>hash_checked := hash_checked sm + hashed, not_found := not_found sm + 1\<rparr>) rest
      | (Some (entry, new_hash), hashed) \<Rightarrow>
          (let sm1 = sm\<lparr>hash_checked := hash_checked sm + hashed\<rparr> in
           case update_file_location s (tf_id tracked_file) (cand_path entry) (cand_size entry)
                  (cand_mtime entry) OK new_hash of
             Inl e \<Rightarrow> (s, Inl e)
           | Inr s1 \<Rightarrow>
               if \<not> list_ex (\<lambda>g. g = ''EventType'') file_service_globals
               then (s1, Inl (NameError ''EventType''))
               else (case create_event s1 (fst (fresh (relinked sm1))) (snd (fresh (relinked sm1)))
                            (tf_id tracked_file) RELINK
                            (Some (''Relinked to '' @ path_str (cand_path entry))) of
                       Inl e \<Rightarrow> (s1, Inl e)
                     | Inr (s2, ev) \<Rightarrow>
                         relink_loop H d use_hash idx fresh s2
                           (sm1\<lparr>relinked := relinked sm1 + 1\<rparr>) rest)))"

definition relink_missing_files ::
  "(string \<Rightarrow> string) \<Rightarrow> db \<Rightarrow> fs \<Rightarrow> (path \<times> string list) list \<Rightarrow> rat
   \<Rightarrow> (nat \<Rightarrow> string \<times> string) \<Rightarrow> path \<Rightarrow> bool \<Rightarrow> string list option \<Rightarrow> int option
   \<Rightarrow> int option \<Rightarrow> db \<times> (py_error + summary)" where
  "relink_missing_files H s d walk now fresh root_path use_hash include_exts max_size_bytes
     modified_within_days =
     (if \<not> path_exists d root_path \<or> \<not> is_dir d root_path then (s, Inl ValueError)
      else (case scan_walk d include_exts max_size_bytes (cutoff_of now modified_within_days)
                   walk ([], None) of
              Inl e \<Rightarrow> (s, Inl e)
            | Inr (idx, unused) \<Rightarrow>
                (let missing = filter (\<lambda>f. status f = MISSING \<or> \<not> path_exists d (file_path f))
                                 (get_all_files s False);
                     sm = \<lparr>checked = length missing, relinked = 0, not_found = 0,
                           scanned = length idx, hash_checked = 0, size_filtered = 0,
                           date_filtered = 0\<rparr>
                 in relink_loop H d use_hash idx fresh s sm missing)))"

section \<open>Example runs of the version and backup manager\<close>

text \<open>
  A service with its backups under \<^verbatim>\<open>/data/versions\<close> and its pins under \<^verbatim>\<open>/pins\<close>,
  and a disk with the file \<^verbatim>\<open>/d/a.txt\<close>.  The digest used is the identity.
\<close>

definition ex_service :: FileService where
  "ex_service = \<lparr>versions_dir = [''/'', ''data'', ''versions''],
                  pin_storage_path = Some [''/'', ''pins'']\<rparr>"

definition ex_disk :: fs where
  "ex_disk =
     [([''/''], Dir 0 0), ([''/'', ''d''], Dir 0 0),
      ([''/'', ''d'', ''a.txt''], File ''hello'' 10),
      ([''/'', ''data''], Dir 0 0), ([''/'', ''data'', ''versions''], Dir 0 0),
      ([''/'', ''pins''], Dir 0 0)]"

text \<open>
  The file is registered (with the display name given, or the default), its bytes are
  overwritten, and version 1 is restored.
\<close>

definition register_mutate_restore :: "string option \<Rightarrow> py_error + (bool \<times> db \<times> fs)" where
  "register_mutate_restore dname =
     (case register_file id ex_service empty_db ex_disk [''/'', ''d'', ''a.txt''] ''init''
             dname ''F'' ''t0'' ''V'' ''t1'' of
        Inl e \<Rightarrow> Inl e
      | Inr (r, s1, d1) \<Rightarrow>
          restore_version id ex_service s1
            (fs_put [''/'', ''d'', ''a.txt''] (File ''changed!'' 20) d1) ''F'' 1)"

text \<open>The file is registered and its version 1 pinned; then the version is unpinned.\<close>

definition register_pin :: "py_error + (path option \<times> db \<times> fs)" where
  "register_pin =
     (case register_file id ex_service empty_db ex_disk [''/'', ''d'', ''a.txt''] ''init''
             None ''F'' ''t0'' ''V'' ''t1'' of
        Inl e \<Rightarrow> Inl e
      | Inr (r, s1, d1) \<Rightarrow> pin_version ex_service s1 d1 ''F'' 1)"

text \<open>
  The store and the disk after the registration with the default display name, the disk
  with the bytes of the file overwritten, and both after the restore of version 1.
\<close>

definition registered_file :: TrackedFile where
  "registered_file =
     \<lparr>tf_id = ''F'', display_name = ''a.txt'', file_path = [''/'', ''d'', ''a.txt''],
      file_size = 5, modified_time = 10, status = OK, created_at = ''t0'',
      file_hash = Some ''hello'', is_favorite = False, is_archived = False,
      project_id = None\<rparr>"

definition registered_version :: Version where
  "registered_version =
     \<lparr>v_id = ''V'', v_file_id = ''F'', version_number = 1, commit_message = ''init'',
      v_file_size = 5, v_modified_time = 10, v_created_at = ''t1'',
      v_file_hash = Some ''hello'', is_pinned = False, pinned_path = None\<rparr>"

definition registered_store :: db where
  "registered_store = empty_db\<lparr>files := [registered_file], versions := [registered_version]\<rparr>"

definition registered_disk :: fs where
  "registered_disk =
     [([''/'', ''data'', ''versions'', ''F'', ''a_v1.txt''], File ''hello'' 10),
      ([''/'', ''data'', ''versions'', ''F''], Dir 0 0),
      ([''/''], Dir 0 0), ([''/'', ''d''], Dir 0 0),
      ([''/'', ''d'', ''a.txt''], File ''hello'' 10),
      ([''/'', ''data''], Dir 0 0), ([''/'', ''data'', ''versions''], Dir 0 0),
      ([''/'', ''pins''], Dir 0 0)]"

definition changed_disk :: fs where
  "changed_disk = fs_put [''/'', ''d'', ''a.txt''] (File ''changed!'' 20) registered_disk"

definition restored_store :: db where
  "restored_store =
     empty_db\<lparr>files := [registered_file\<lparr>file_hash := None\<rparr>],
              versions := [registered_version]\<rparr>"

definition restored_disk :: fs where
  "restored_disk = fs_put [''/'', ''d'', ''a.txt''] (File ''hello'' 10) changed_disk"




text \<open>
  The relink scenario of the specification: \<^verbatim>\<open>report.pdf\<close> (size 500, modification time
  1000) is MISSING; the scanned root holds \<^verbatim>\<open>old/report.pdf\<close> (size 500, time 1001) and
  \<^verbatim>\<open>new/report.pdf\<close> (size 500, time 1100), and the walk meets \<^verbatim>\<open>new\<close> first.
\<close>

definition report_file :: TrackedFile where
  "report_file =
     \<lparr>tf_id = ''R'', display_name = ''report.pdf'',
      file_path = [''/'', ''docs'', ''report.pdf''], file_size = 500, modified_time = 1000,
      status = MISSING, created_at = ''t0'', file_hash = None, is_favorite = False,
      is_archived = False, project_id = None\<rparr>"

definition report_store :: db where
  "report_store = empty_db\<lparr>files := [report_file]\<rparr>"

definition scan_disk :: fs where
  "scan_disk =
     [([''/''], Dir 0 0), ([''/'', ''scan''], Dir 0 0),
      ([''/'', ''scan'', ''new''], Dir 0 0),
      ([''/'', ''scan'', ''new'', ''report.pdf''], File (replicate 500 CHR ''n'') 1100),
      ([''/'', ''scan'', ''old''], Dir 0 0),
      ([''/'', ''scan'', ''old'', ''report.pdf''], File (replicate 500 CHR ''o'') 1001)]"

definition scan_walk_result :: "(path \<times> string list) list" where
  "scan_walk_result =
     [([''/'', ''scan''], []),
      ([''/'', ''scan'', ''new''], [''report.pdf'']),
      ([''/'', ''scan'', ''old''], [''report.pdf''])]"

definition fresh_events :: "nat \<Rightarrow> string \<times> string" where
  "fresh_events k = (''event'' @ show_nat k, ''now'')"

definition relink_scenario :: "int option \<Rightarrow> db \<times> (py_error + summary)" where
  "relink_scenario max_size_bytes =
     relink_missing_files id report_store scan_disk scan_walk_result 2000 fresh_events
       [''/'', ''scan''] False None max_size_bytes None"

text \<open>The same scan for a missing file of another name, which no candidate matches.\<close>

definition unmatched_store :: db where
  "unmatched_store =
     empty_db\<lparr>files := [report_file\<lparr>file_path := [''/'', ''docs'', ''other.pdf'']\<rparr>]\<rparr>"

definition relink_unmatched :: "db \<times> (py_error + summary)" where
  "relink_unmatched =
     relink_missing_files id unmatched_store scan_disk scan_walk_result 2000 fresh_events
       [''/'', ''scan''] False None None None"

section \<open>Job scheduler (core/job_queue.py)\<close>

datatype JobType = Job_VERIFY_ALL | Job_PIN_COPY | Job_RESTORE | Job_RELINK_SCAN

datatype JobStatus = QUEUED | RUNNING | PAUSED | COMPLETED | FAILED | CANCELED

record Job =
  job_type :: JobType
  job_description :: string
  payload :: "(string \<times> string) list"
  job_id :: string
  job_status :: JobStatus
  progress :: int
  job_error :: "string option"

text \<open>
  What a handler can raise.  The worker's \<^verbatim>\<open>except Exception\<close> clause catches the
  instances of \<^verbatim>\<open>Exception\<close> and of its subclasses; \<^verbatim>\<open>SystemExit\<close>,
  \<^verbatim>\<open>KeyboardInterrupt\<close> and \<^verbatim>\<open>GeneratorExit\<close> derive from \<^verbatim>\<open>BaseException\<close>
  only and pass through it.  Each value carries \<^verbatim>\<open>str(exc)\<close>.
\<close>

datatype raised = Exception string | BaseException string

text \<open>
  A handler is called with the job, may change it, and returns or raises;
  \<^verbatim>\<open>Raised j exc\<close> is a raise of \<open>exc\<close> with the job left as \<open>j\<close>.  Handlers are
  functions, which Python takes as true in \<^verbatim>\<open>if not handler\<close>.
\<close>

datatype handler_result = Returned Job | Raised Job raised

type_synonym handlers = "JobType \<Rightarrow> (Job \<Rightarrow> handler_result) option"


text \<open>The signals a worker emits, each with the job as it is at that moment.\<close>

datatype signal = job_updated Job | job_completed Job

text \<open>
  The \<^verbatim>\<open>try\<close> statement around the handler call: the job as the statement leaves it,
  and the exception that leaves the statement, if any.  The \<^verbatim>\<open>finally\<close> clause, which
  emits the completion signal, runs in every case and is part of \<open>run_job\<close> below.
\<close>

fun call_handler :: "handler_result \<Rightarrow> Job \<times> raised option" where
  "call_handler (Returned j) =
     ((if job_status j \<noteq> CANCELED \<and> job_status j \<noteq> FAILED
       then j\<lparr>job_status := COMPLETED, progress := 100\<rparr> else j), None)"
| "call_handler (Raised j (Exception msg)) =
     (j\<lparr>job_status := FAILED, job_error := Some msg\<rparr>, None)"
| "call_handler (Raised j (BaseException msg)) = (j, Some (BaseException msg))"

text \<open>
  The body of the loop of \<^verbatim>\<open>_run\<close> for one job taken from the queue: the job as the
  worker leaves it, the signals emitted, and the exception that leaves the body, if any.
  The table of running jobs, which holds the job from the start of the body to its end, is
  not modelled.
\<close>

definition run_job :: "handlers \<Rightarrow> Job \<Rightarrow> Job \<times> signal list \<times> raised option" where
  "run_job hs job =
     (let job1 = job\<lparr>job_status := RUNNING, progress := 0\<rparr> in
      case hs (job_type job1) of
        None \<Rightarrow>
          (let job2 = job1\<lparr>job_status := FAILED, job_error := Some ''No handler for job type''\<rparr>
           in (job2, [job_updated job1, job_completed job2], None))
      | Some handler \<Rightarrow>
          (case call_handler (handler job1) of
             (j', exc) \<Rightarrow> (j', [job_updated job1, job_completed j'], exc)))"







section \<open>Schema initialisation and migration (DatabaseManager._init_database)\<close>

text \<open>
  The database file as SQLite sees it: the tables, each with the names of its columns and
  its rows of cells (a text or NULL), and the indexes, each with its table and column.
  Types and constraints of columns are not modelled.  SQLite compares identifiers without
  regard to (ASCII) case; Python compares the names \<^verbatim>\<open>PRAGMA table_info\<close> returns exactly.
\<close>

record sql_table =
  t_columns :: "string list"
  t_rows :: "string option list list"

record sqlite_db =
  sql_tables :: "(string \<times> sql_table) list"
  sql_indexes :: "(string \<times> string \<times> string) list"

datatype sql_error = OperationalError string

definition same_name :: "string \<Rightarrow> string \<Rightarrow> bool" where
  "same_name a b = (lower a = lower b)"

definition find_table :: "sqlite_db \<Rightarrow> string \<Rightarrow> sql_table option" where
  "find_table db nm = map_option snd (find (\<lambda>nt. same_name (fst nt) nm) (sql_tables db))"

definition table_info :: "sqlite_db \<Rightarrow> string \<Rightarrow> string list" where
  "table_info db nm = (case find_table db nm of None \<Rightarrow> [] | Some t \<Rightarrow> t_columns t)"

definition create_table_if_not_exists :: "string \<Rightarrow> string list \<Rightarrow> sqlite_db \<Rightarrow> sqlite_db" where
  "create_table_if_not_exists nm cols db =
     (if find_table db nm \<noteq> None then db
      else db\<lparr>sql_tables := sql_tables db @ [(nm, \<lparr>t_columns = cols, t_rows = []\<rparr>)]\<rparr>)"

definition create_index_if_not_exists ::
  "string \<Rightarrow> string \<Rightarrow> string \<Rightarrow> sqlite_db \<Rightarrow> sql_error + sqlite_db" where
  "create_index_if_not_exists iname tname col db =
     (if list_ex (\<lambda>i. same_name (fst i) iname) (sql_indexes db) then Inr db
      else (case find_table db tname of
              None \<Rightarrow> Inl (OperationalError ''no such table'')
            | Some t \<Rightarrow>
                if list_ex (\<lambda>c. same_name c col) (t_columns t)
                then Inr (db\<lparr>sql_indexes := sql_indexes db @ [(iname, tname, col)]\<rparr>)
                else Inl (OperationalError ''no such column'')))"

text \<open>
  \<^verbatim>\<open>ALTER TABLE ... ADD COLUMN\<close>: the column is appended and every row gets its default.
\<close>

definition alter_table_add_column ::
  "string \<Rightarrow> string \<Rightarrow> string option \<Rightarrow> sqlite_db \<Rightarrow> sql_error + sqlite_db" where
  "alter_table_add_column tname col dflt db =
     (case find_table db tname of
        None \<Rightarrow> Inl (OperationalError ''no such table'')
      | Some t \<Rightarrow>
          if list_ex (\<lambda>c. same_name c col) (t_columns t)
          then Inl (OperationalError ''duplicate column name'')
          else Inr (db\<lparr>sql_tables :=
                 map (\<lambda>nt. if same_name (fst nt) tname
                            then (fst nt, \<lparr>t_columns = t_columns (snd nt) @ [col],
                                          t_rows = map (\<lambda>r. r @ [dflt]) (t_rows (snd nt))\<rparr>)
                            else nt)
                     (sql_tables db)\<rparr>))"

text \<open>
  The statements of the initialisation.  \<^verbatim>\<open>Add_column_if_missing\<close> is the pattern of every
  \<^verbatim>\<open>_migrate_add_..._column\<close> method: read \<^verbatim>\<open>PRAGMA table_info\<close>, and alter the table
  when the name is not among the columns.  (\<^verbatim>\<open>_migrate_add_pin_columns\<close> reads the
  column list once for its two checks; the two names differ, so reading it again before
  the second check gives the same answer.)
\<close>

datatype statement =
    Create_table string "string list"
  | Create_index string string string
  | Add_column_if_missing string string "string option"

fun execute :: "statement \<Rightarrow> sqlite_db \<Rightarrow> sql_error + sqlite_db" where
  "execute (Create_table nm cols) db = Inr (create_table_if_not_exists nm cols db)"
| "execute (Create_index iname tname col) db = create_index_if_not_exists iname tname col db"
| "execute (Add_column_if_missing tname col dflt) db =
     (if col \<notin> set (table_info db tname) then alter_table_add_column tname col dflt db
      else Inr db)"

fun execute_all :: "statement list \<Rightarrow> sqlite_db \<Rightarrow> sql_error + sqlite_db" where
  "execute_all [] db = Inr db"
| "execute_all (st # sts) db =
     (case execute st db of Inl e \<Rightarrow> Inl e | Inr db' \<Rightarrow> execute_all sts db')"

definition migrate_add_hash_column :: "statement list" where
  "migrate_add_hash_column =
     [Add_column_if_missing ''files'' ''file_hash'' None,
      Add_column_if_missing ''versions'' ''file_hash'' None]"

definition migrate_add_favorite_column :: "statement list" where
  "migrate_add_favorite_column = [Add_column_if_missing ''files'' ''is_favorite'' (Some ''0'')]"

definition migrate_add_archived_column :: "statement list" where
  "migrate_add_archived_column = [Add_column_if_missing ''files'' ''is_archived'' (Some ''0'')]"

definition migrate_add_pin_columns :: "statement list" where
  "migrate_add_pin_columns =
     [Add_column_if_missing ''versions'' ''is_pinned'' (Some ''0''),
      Add_column_if_missing ''versions'' ''pinned_path'' None]"

definition migrate_add_project_column :: "statement list" where
  "migrate_add_project_column = [Add_column_if_missing ''files'' ''project_id'' None]"

definition init_statements :: "statement list" where
  "init_statements =
     [Create_table ''files''
        [''id'', ''display_name'', ''file_path'', ''file_size'', ''modified_time'', ''status'',
         ''created_at'', ''file_hash''],
      Create_table ''versions''
        [''id'', ''file_id'', ''version_number'', ''commit_message'', ''file_size'',
         ''modified_time'', ''created_at'', ''file_hash''],
      Create_index ''idx_versions_file_id'' ''versions'' ''file_id'',
      Create_table ''tags'' [''id'', ''name'', ''created_at''],
      Create_table ''tag_links'' [''id'', ''tag_id'', ''file_id'', ''version_id'', ''created_at''],
      Create_index ''idx_tag_links_file_id'' ''tag_links'' ''file_id'',
      Create_index ''idx_tag_links_tag_id'' ''tag_links'' ''tag_id'',
      Create_table ''events'' [''id'', ''file_id'', ''event_type'', ''description'', ''created_at''],
      Create_table ''metadata'' [''file_id'', ''data'', ''created_at'', ''updated_at''],
      Create_table ''projects'' [''id'', ''name'', ''description'', ''color'', ''created_at''],
      Create_index ''idx_events_file_id'' ''events'' ''file_id'']
     @ migrate_add_hash_column
     @ migrate_add_favorite_column
     @ migrate_add_archived_column
     @ migrate_add_pin_columns
     @ migrate_add_project_column"

definition init_database :: "sqlite_db \<Rightarrow> sql_error + sqlite_db" where
  "init_database db = execute_all init_statements db"

text \<open>The schema of a database: its tables with their columns, and its indexes.\<close>

definition schema_of :: "sqlite_db \<Rightarrow> (string \<times> string list) list \<times> (string \<times> string \<times> string) list" where
  "schema_of db = (map (\<lambda>nt. (fst nt, t_columns (snd nt))) (sql_tables db), sql_indexes db)"

text \<open>The columns the migrations add, and those of them a database lacks.\<close>

fun added_column :: "statement \<Rightarrow> (string \<times> string) list" where
  "added_column (Add_column_if_missing tname col dflt) = [(tname, col)]"
| "added_column other = []"

definition missing_columns :: "sqlite_db \<Rightarrow> (string \<times> string) list" where
  "missing_columns db =
     filter (\<lambda>tc. snd tc \<notin> set (table_info db (fst tc))) (concat (map added_column init_statements))"

text \<open>
  An empty database file, and a database of the first release: \<^verbatim>\<open>files\<close> and
  \<^verbatim>\<open>versions\<close> without hash, favourite, archive, pin and project columns, one row each.
\<close>

definition new_database :: sqlite_db where
  "new_database = \<lparr>sql_tables = [], sql_indexes = []\<rparr>"

definition old_database :: sqlite_db where
  "old_database =
     \<lparr>sql_tables =
        [(''files'',
          \<lparr>t_columns = [''id'', ''display_name'', ''file_path'', ''file_size'', ''modified_time'',
                        ''status'', ''created_at''],
           t_rows = [[Some ''F'', Some ''a.txt'', Some ''/d/a.txt'', Some ''5'', Some ''10'',
                      Some ''OK'', Some ''t0'']]\<rparr>),
         (''versions'',
          \<lparr>t_columns = [''id'', ''file_id'', ''version_number'', ''commit_message'',
                        ''file_size'', ''modified_time'', ''created_at''],
           t_rows = [[Some ''V'', Some ''F'', Some ''1'', Some ''init'', Some ''5'', Some ''10'',
                      Some ''t1'']]\<rparr>)],
      sql_indexes = []\<rparr>"

text \<open>The database of the first release after the initialisation has run on it.\<close>

definition migrated_database :: sqlite_db where
  "migrated_database =
     \<lparr>sql_tables =
        [(''files'',
          \<lparr>t_columns = [''id'', ''display_name'', ''file_path'', ''file_size'', ''modified_time'',
                        ''status'', ''created_at'', ''file_hash'', ''is_favorite'',
                        ''is_archived'', ''project_id''],
           t_rows = [[Some ''F'', Some ''a.txt'', Some ''/d/a.txt'', Some ''5'', Some ''10'',
                      Some ''OK'', Some ''t0'', None, Some ''0'', Some ''0'', None]]\<rparr>),
         (''versions'',
          \<lparr>t_columns = [''id'', ''file_id'', ''version_number'', ''commit_message'',
                        ''file_size'', ''modified_time'', ''created_at'', ''file_hash'',
                        ''is_pinned'', ''pinned_path''],
           t_rows = [[Some ''V'', Some ''F'', Some ''1'', Some ''init'', Some ''5'', Some ''10'',
                      Some ''t1'', None, Some ''0'', None]]\<rparr>),
         (''tags'', \<lparr>t_columns = [''id'', ''name'', ''created_at''], t_rows = []\<rparr>),
         (''tag_links'',
          \<lparr>t_columns = [''id'', ''tag_id'', ''file_id'', ''version_id'', ''created_at''],
           t_rows = []\<rparr>),
         (''events'',
          \<lparr>t_columns = [''id'', ''file_id'', ''event_type'', ''description'', ''created_at''],
           t_rows = []\<rparr>),
         (''metadata'',
          \<lparr>t_columns = [''file_id'', ''data'', ''created_at'', ''updated_at''], t_rows = []\<rparr>),
         (''projects'',
          \<lparr>t_columns = [''id'', ''name'', ''description'', ''color'', ''created_at''],
           t_rows = []\<rparr>)],
      sql_indexes =
        [(''idx_versions_file_id'', ''versions'', ''file_id''),
         (''idx_tag_links_file_id'', ''tag_links'', ''file_id''),
         (''idx_tag_links_tag_id'', ''tag_links'', ''tag_id''),
         (''idx_events_file_id'', ''events'', ''file_id'')]\<rparr>"

text \<open>
  A statement is satisfied by a database on which it changes nothing: the table or the
  index is there, or the column is among those \<^verbatim>\<open>PRAGMA table_info\<close> lists.
\<close>

fun satisfied :: "statement \<Rightarrow> sqlite_db \<Rightarrow> bool" where
  "satisfied (Create_table nm cols) db = (find_table db nm \<noteq> None)"
| "satisfied (Create_index iname tname col) db =
     list_ex (\<lambda>i. same_name (fst i) iname) (sql_indexes db)"
| "satisfied (Add_column_if_missing tname col dflt) db = (col \<in> set (table_info db tname))"

section \<open>Properties of the verification engine\<close>

text \<open>
  Claim C1.  For every tracked file and every disk, stated on what the disk holds at the
  file's path: when the path does not exist, \<^verbatim>\<open>check_file_status\<close> returns MISSING; when
  it exists and the size and the modification time of the node on disk both equal the
  stored ones, the result is OK, whatever the stored hash; when one of them differs and a
  stored hash exists (a non-empty string, the test the code makes), the default call
  (\<^verbatim>\<open>use_hash=True\<close>) returns OK if the digest of the bytes on disk equals the stored
  hash and MODIFIED otherwise (a directory has no digest), and the call with
  \<^verbatim>\<open>use_hash=False\<close> returns MODIFIED; when one of them differs and there is no stored
  hash, the result is MODIFIED.
\<close>

theorem check_file_status_policy:
  fixes H :: "string \<Rightarrow> string" and d :: fs and tf :: TrackedFile and use_hash :: bool
  shows "(map_of d (file_path tf) = None \<longrightarrow> check_file_status H d tf use_hash = MISSING)
       \<and> (\<forall>n. map_of d (file_path tf) = Some n \<longrightarrow>
            (st_size n = file_size tf \<and> st_mtime n = modified_time tf
               \<longrightarrow> check_file_status H d tf use_hash = OK)
          \<and> ((st_size n \<noteq> file_size tf \<or> st_mtime n \<noteq> modified_time tf)
               \<and> truthy (file_hash tf)
               \<longrightarrow> check_file_status H d tf True =
                     (case n of
                        File c m \<Rightarrow> if Some (H c) = file_hash tf then OK else MODIFIED
                      | Dir s m \<Rightarrow> MODIFIED)
                 \<and> check_file_status H d tf False = MODIFIED)
          \<and> ((st_size n \<noteq> file_size tf \<or> st_mtime n \<noteq> modified_time tf)
               \<and> \<not> truthy (file_hash tf)
               \<longrightarrow> check_file_status H d tf use_hash = MODIFIED))"
proof (intro conjI allI impI)
  assume "map_of d (file_path tf) = None"
  then show "check_file_status H d tf use_hash = MISSING"
    by (simp add: check_file_status_def get_file_state_def)
next
  fix n
  assume n: "map_of d (file_path tf) = Some n"
    and same: "st_size n = file_size tf \<and> st_mtime n = modified_time tf"
  then show "check_file_status H d tf use_hash = OK"
    by (simp add: check_file_status_def get_file_state_def)
next
  fix n
  assume n: "map_of d (file_path tf) = Some n"
    and differs: "(st_size n \<noteq> file_size tf \<or> st_mtime n \<noteq> modified_time tf)
                    \<and> truthy (file_hash tf)"
  show "check_file_status H d tf True =
          (case n of
             File c m \<Rightarrow> if Some (H c) = file_hash tf then OK else MODIFIED
           | Dir s m \<Rightarrow> MODIFIED)"
  proof (cases n)
    case (File c m)
    from differs have stored: "file_hash tf \<noteq> Some []" "file_hash tf \<noteq> None"
      by (cases "file_hash tf"; simp)+
    with File n differs show ?thesis
      by (cases "file_hash tf")
        (auto simp: check_file_status_def get_file_state_def compute_file_hash_def
          path_exists_def Let_def)
  next
    case (Dir s m)
    with n differs show ?thesis
      by (auto simp: check_file_status_def get_file_state_def compute_file_hash_def
          path_exists_def Let_def)
  qed
  from n differs show "check_file_status H d tf False = MODIFIED"
    by (auto simp: check_file_status_def get_file_state_def Let_def)
next
  fix n
  assume n: "map_of d (file_path tf) = Some n"
    and differs: "(st_size n \<noteq> file_size tf \<or> st_mtime n \<noteq> modified_time tf)
                    \<and> \<not> truthy (file_hash tf)"
  then show "check_file_status H d tf use_hash = MODIFIED"
    by (auto simp: check_file_status_def get_file_state_def Let_def)
qed

text \<open>
  The scenarios of the specification on concrete disks.  In scenario (a) the stored record
  has no hash, or a hash that is not the digest of the bytes on disk, so that OK can only
  come from the comparison of size and modification time; the last line is scenario (b)
  with hash verification switched off.
\<close>

theorem check_file_status_policy_witness:
  "check_file_status id (disk_with (replicate 100 CHR ''x'') 1000) (stored_file None) True = OK
   \<and> check_file_status id (disk_with (replicate 100 CHR ''x'') 1000)
        (stored_file (Some ''0f0f'')) True = OK
   \<and> check_file_status id (disk_with (replicate 100 CHR ''x'') 1000)
        (stored_file (Some ''0f0f'')) False = OK
   \<and> check_file_status id (disk_with (replicate 100 CHR ''x'') 2000)
        (stored_file (Some (replicate 100 CHR ''x''))) True = OK
   \<and> check_file_status id (disk_with (replicate 100 CHR ''y'') 2000)
        (stored_file (Some (replicate 100 CHR ''x''))) True = MODIFIED
   \<and> check_file_status id (disk_with (replicate 99 CHR ''x'') 1000)
        (stored_file (Some (replicate 100 CHR ''x''))) True = MODIFIED
   \<and> check_file_status id [] (stored_file (Some (replicate 100 CHR ''x''))) True = MISSING
   \<and> check_file_status id (disk_with (replicate 100 CHR ''x'') 2000) (stored_file None) True
        = MODIFIED
   \<and> check_file_status id (disk_with (replicate 100 CHR ''x'') 2000)
        (stored_file (Some (replicate 100 CHR ''x''))) False = MODIFIED"
proof -
  let ?x = "replicate 100 CHR ''x''" and ?y = "replicate 100 CHR ''y''"
  let ?z = "replicate 99 CHR ''x''"
  note a1 = check_file_status_policy [of "disk_with ?x 1000" "stored_file None" id True]
  note a2 = check_file_status_policy [of "disk_with ?x 1000" "stored_file (Some ''0f0f'')" id True]
  note a3 = check_file_status_policy [of "disk_with ?x 1000" "stored_file (Some ''0f0f'')" id False]
  note b = check_file_status_policy [of "disk_with ?x 2000" "stored_file (Some ?x)" id True]
  note c = check_file_status_policy [of "disk_with ?y 2000" "stored_file (Some ?x)" id True]
  note c' = check_file_status_policy [of "disk_with ?z 1000" "stored_file (Some ?x)" id True]
  note d = check_file_status_policy [of "[]" "stored_file (Some ?x)" id True]
  note e = check_file_status_policy [of "disk_with ?x 2000" "stored_file None" id True]
  have A1: "check_file_status id (disk_with ?x 1000) (stored_file None) True = OK"
    using a1 by (simp add: stored_file_def disk_with_def)
  have A2: "check_file_status id (disk_with ?x 1000) (stored_file (Some ''0f0f'')) True = OK"
    using a2 by (simp add: stored_file_def disk_with_def)
  have A3: "check_file_status id (disk_with ?x 1000) (stored_file (Some ''0f0f'')) False = OK"
    using a3 by (simp add: stored_file_def disk_with_def)
  have B: "check_file_status id (disk_with ?x 2000) (stored_file (Some ?x)) True = OK"
    using b by (simp add: stored_file_def disk_with_def)
  have C: "check_file_status id (disk_with ?y 2000) (stored_file (Some ?x)) True = MODIFIED"
    using c by (simp add: stored_file_def disk_with_def)
  have C': "check_file_status id (disk_with ?z 1000) (stored_file (Some ?x)) True = MODIFIED"
    using c' by (simp add: stored_file_def disk_with_def)
  have D: "check_file_status id [] (stored_file (Some ?x)) True = MISSING"
    using d by (simp add: stored_file_def)
  have E: "check_file_status id (disk_with ?x 2000) (stored_file None) True = MODIFIED"
    using e by (simp add: stored_file_def disk_with_def)
  have F: "check_file_status id (disk_with ?x 2000) (stored_file (Some ?x)) False = MODIFIED"
    using b by (simp add: stored_file_def disk_with_def)
  from A1 A2 A3 B C C' D E F show ?thesis by blast
qed

section \<open>Properties of the metadata store\<close>

subsection \<open>Version numbers\<close>

lemma sql_max_eq: "sql_max xs = (if xs = [] then None else Some (Max (set xs)))"
  by (cases xs) (simp_all add: Max.set_eq_fold [symmetric])

lemma next_number_eq:
  "get_next_version_number s fid =
     (if file_version_numbers s fid = [] then 1 else Max (set (file_version_numbers s fid)) + 1)"
  by (simp add: get_next_version_number_def file_version_numbers_def sql_max_eq Let_def)

lemma next_number_greater:
  assumes n: "n \<in> set (file_version_numbers s fid)"
  shows "n < get_next_version_number s fid"
proof -
  from n have "file_version_numbers s fid \<noteq> []" by auto
  moreover have "n \<le> Max (set (file_version_numbers s fid))" using n by simp
  ultimately show ?thesis by (simp add: next_number_eq)
qed

lemma numbers_after_create:
  assumes "create_version s vid now fid msg sz mt h = Inr (s', v)"
  shows "file_version_numbers s' fid = file_version_numbers s fid @ [version_number v]"
    and "version_number v = get_next_version_number s fid"
  using assms
  by (auto simp: create_version_def file_version_numbers_def Let_def split: if_splits)

lemma next_after_create:
  assumes "create_version s vid now fid msg sz mt h = Inr (s', v)"
  shows "get_next_version_number s' fid = version_number v + 1"
proof -
  let ?ns = "file_version_numbers s fid"
  have v: "version_number v = get_next_version_number s fid"
    and ns': "file_version_numbers s' fid = ?ns @ [version_number v]"
    using numbers_after_create [OF assms] by auto
  have "Max (set (?ns @ [version_number v])) = version_number v"
  proof (rule Max_eqI)
    show "finite (set (?ns @ [version_number v]))" by simp
    show "version_number v \<in> set (?ns @ [version_number v])" by simp
    fix y assume "y \<in> set (?ns @ [version_number v])"
    then show "y \<le> version_number v"
      using next_number_greater [of y s fid] v by auto
  qed
  then show ?thesis
    by (simp add: next_number_eq [of s'] ns')
qed

lemma next_number_cong:
  assumes "file_version_numbers s' fid = file_version_numbers s fid"
  shows "get_next_version_number s' fid = get_next_version_number s fid"
  by (simp add: next_number_eq assms)

lemma numbers_map_preserving:
  assumes "\<And>v. v_file_id (f v) = v_file_id v" and "\<And>v. version_number (f v) = version_number v"
  shows "map version_number (filter (\<lambda>v. v_file_id v = fid) (map f vs))
           = map version_number (filter (\<lambda>v. v_file_id v = fid) vs)"
  by (induction vs) (simp_all add: assms)

lemma numbers_after_write:
  assumes "run_write s w = Inr s'" and "w \<noteq> W_delete_file fid"
  shows "file_version_numbers s' fid =
           file_version_numbers s fid
             @ (if creates_version_of fid w then [get_next_version_number s fid] else [])"
proof (cases w)
  case (W_delete_file fid')
  with assms have "fid' \<noteq> fid" and s': "s' = delete_file s fid'" by auto
  then have "filter (\<lambda>v. v_file_id v = fid) (filter (\<lambda>v. v_file_id v \<noteq> fid') (versions s))
               = filter (\<lambda>v. v_file_id v = fid) (versions s)"
    by (auto intro: filter_cong)
  then show ?thesis
    using W_delete_file s'
    by (simp add: file_version_numbers_def delete_file_def delete_from_files_def Let_def)
next
  case (W_create_version i now fid' msg sz mt h)
  then obtain v where c: "create_version s i now fid' msg sz mt h = Inr (s', v)"
    using assms(1) by (cases "create_version s i now fid' msg sz mt h") auto
  show ?thesis
  proof (cases "fid' = fid")
    case True
    then show ?thesis
      using numbers_after_create [of s i now fid msg sz mt h s' v] c W_create_version by simp
  next
    case False
    then show ?thesis
      using c W_create_version
      by (auto simp: create_version_def file_version_numbers_def Let_def split: if_splits)
  qed
next
  case (W_set_version_pinned fid' n b pp)
  then show ?thesis
    using assms(1)
    by (auto simp: set_version_pinned_def file_version_numbers_def
        intro!: numbers_map_preserving)
next
  case (W_create_file i now dn fp sz mt h)
  then show ?thesis using assms(1)
    by (auto simp: create_file_def file_version_numbers_def Let_def split: if_splits)
next
  case (W_update_file_location fid' fp sz mt st h)
  then show ?thesis using assms(1)
    by (auto simp: update_file_location_def file_version_numbers_def split: if_splits)
next
  case (W_get_or_create_tag i now nm)
  then show ?thesis using assms(1)
    by (auto simp: get_or_create_tag_def file_version_numbers_def Let_def
        split: if_splits option.splits)
next
  case (W_create_event i now fid' ty descr)
  then show ?thesis using assms(1)
    by (auto simp: create_event_def file_version_numbers_def Let_def split: if_splits)
next
  case (W_create_project i now nm descr col)
  then show ?thesis using assms(1)
    by (auto simp: create_project_def file_version_numbers_def Let_def split: if_splits)
qed (use assms(1) in \<open>auto simp: file_version_numbers_def update_file_status_def
      update_file_metadata_def update_display_name_def add_tag_to_file_def
      remove_tag_from_file_def delete_unused_tags_def set_favorite_def toggle_favorite_def
      set_archived_def unarchive_file_def set_metadata_def delete_events_for_file_def
      update_project_def delete_project_def set_file_project_def Let_def\<close>)

lemma next_after_write:
  assumes "run_write s w = Inr s'" and "w \<noteq> W_delete_file fid"
  shows "get_next_version_number s' fid =
           get_next_version_number s fid + (if creates_version_of fid w then 1 else 0)"
proof (cases "creates_version_of fid w")
  case False
  then show ?thesis
    using numbers_after_write [OF assms] next_number_cong [of s' fid s] by simp
next
  case True
  then obtain i now msg sz mt h where w: "w = W_create_version i now fid msg sz mt h"
    by (cases w) auto
  then obtain v where c: "create_version s i now fid msg sz mt h = Inr (s', v)"
    using assms(1) by (cases "create_version s i now fid msg sz mt h") auto
  show ?thesis
    using True next_after_create [OF c] numbers_after_create(2) [OF c] by simp
qed

lemma files_of_update:
  "files (s\<lparr>files := fs\<rparr>) = fs"
  "files (s\<lparr>files := fs, projects := ps\<rparr>) = fs"
  by simp_all

lemma tracked_map:
  assumes "f \<in> set fs" and "tf_id f = fid" and "\<And>x. tf_id (g x) = tf_id x"
  shows "\<exists>f' \<in> set (map g fs). tf_id f' = fid"
  using assms by (intro bexI [of _ "g f"]) auto

lemma tracked_after_write:
  assumes "run_write s w = Inr s'" and "w \<noteq> W_delete_file fid"
    and "get_file s fid \<noteq> None"
  shows "get_file s' fid \<noteq> None"
proof -
  from assms(3) obtain f :: TrackedFile where f: "f \<in> set (files s)" "tf_id f = fid"
    by (auto simp: get_file_def find_None_iff)
  have "\<exists>f' \<in> set (files s'). tf_id f' = fid"
  proof (cases w)
    case (W_delete_file fid')
    with assms f show ?thesis
      by (auto simp: delete_file_def delete_from_files_def Let_def)
  next
    case (W_create_file i now dn fp sz mt h)
    then show ?thesis using assms(1) f
      by (auto simp: create_file_def Let_def split: if_splits)
  next
    case (W_update_file_location fid' fp sz mt st h)
    with assms(1) have moved: "files s' =
        map (\<lambda>f. if tf_id f = fid'
                  then f\<lparr>file_path := fp, file_size := sz, modified_time := mt, status := st,
                         file_hash := h\<rparr>
                  else f) (files s)"
      by (auto simp: update_file_location_def split: if_splits)
    show ?thesis
      unfolding moved by (rule tracked_map [OF f]) simp
  next
    case (W_create_version i now fid' msg sz mt h)
    then show ?thesis using assms(1) f
      by (auto simp: create_version_def Let_def split: if_splits)
  next
    case (W_get_or_create_tag i now nm)
    then show ?thesis using assms(1) f
      by (auto simp: get_or_create_tag_def Let_def split: if_splits option.splits)
  next
    case (W_create_event i now fid' ty descr)
    then show ?thesis using assms(1) f
      by (auto simp: create_event_def Let_def split: if_splits)
  next
    case (W_create_project i now nm descr col)
    then show ?thesis using assms(1) f
      by (auto simp: create_project_def Let_def split: if_splits)
  next
    case (W_update_file_status fid' st)
    with assms(1) have s': "s' = update_file_status s fid' st" by simp
    show ?thesis
      unfolding s' update_file_status_def
      by (simp only: files_of_update, rule tracked_map [OF f], simp)
  next
    case (W_update_file_metadata fid' sz mt st h)
    with assms(1) have s': "s' = update_file_metadata s fid' sz mt st h" by simp
    show ?thesis
      unfolding s' update_file_metadata_def
      by (simp only: files_of_update, rule tracked_map [OF f], simp)
  next
    case (W_update_display_name fid' dn)
    with assms(1) have s': "s' = update_display_name s fid' dn" by simp
    show ?thesis
      unfolding s' update_display_name_def
      by (simp only: files_of_update, rule tracked_map [OF f], simp)
  next
    case (W_set_favorite fid' b)
    with assms(1) have s': "s' = set_favorite s fid' b" by simp
    show ?thesis
      unfolding s' set_favorite_def
      by (simp only: files_of_update, rule tracked_map [OF f], simp)
  next
    case (W_toggle_favorite fid')
    with assms(1) have s': "s' = fst (toggle_favorite s fid')" by simp
    show ?thesis
      unfolding s' toggle_favorite_def Let_def fst_conv
      by (simp only: files_of_update, rule tracked_map [OF f], simp)
  next
    case (W_set_archived fid' b)
    with assms(1) have s': "s' = set_archived s fid' b" by simp
    show ?thesis
      unfolding s' set_archived_def
      by (simp only: files_of_update, rule tracked_map [OF f], simp)
  next
    case (W_unarchive_file fid')
    with assms(1) have s': "s' = unarchive_file s fid'" by simp
    show ?thesis
      unfolding s' unarchive_file_def set_archived_def
      by (simp only: files_of_update, rule tracked_map [OF f], simp)
  next
    case (W_delete_project pid)
    with assms(1) have s': "s' = delete_project s pid" by simp
    show ?thesis
      unfolding s' delete_project_def
      by (simp only: files_of_update, rule tracked_map [OF f], simp)
  next
    case (W_set_file_project fid' pid)
    with assms(1) have s': "s' = set_file_project s fid' pid" by simp
    show ?thesis
      unfolding s' set_file_project_def
      by (simp only: files_of_update, rule tracked_map [OF f], simp)
  qed (use assms(1) f in \<open>auto simp: set_version_pinned_def add_tag_to_file_def
        remove_tag_from_file_def delete_unused_tags_def set_metadata_def
        delete_events_for_file_def update_project_def Let_def\<close>)
  then show ?thesis
    by (auto simp: get_file_def find_None_iff)
qed

lemma map_upt_shift:
  "map f [0 ..< Suc n] = f 0 # map (\<lambda>k. f (Suc k)) [0 ..< n]"
  by (simp add: upt_conv_Cons map_Suc_upt [symmetric] del: upt_Suc)

lemma numbers_after_writes:
  assumes "run_writes s ws = Inr s'" and "W_delete_file fid \<notin> set ws"
  shows "file_version_numbers s' fid =
           file_version_numbers s fid
             @ map (\<lambda>k. get_next_version_number s fid + int k)
                 [0 ..< length (filter (creates_version_of fid) ws)]
       \<and> (get_file s fid \<noteq> None \<longrightarrow> get_file s' fid \<noteq> None)"
  using assms
proof (induction ws arbitrary: s)
  case Nil
  then show ?case by simp
next
  case (Cons w ws)
  from Cons.prems(1) obtain s1 where w: "run_write s w = Inr s1"
    and rest: "run_writes s1 ws = Inr s'"
    by (cases "run_write s w") auto
  from Cons.prems(2) have nw: "w \<noteq> W_delete_file fid" and nws: "W_delete_file fid \<notin> set ws"
    by auto
  note ih = Cons.IH [OF rest nws]
  note step = numbers_after_write [OF w nw] next_after_write [OF w nw]
  have tracked: "get_file s fid \<noteq> None \<longrightarrow> get_file s' fid \<noteq> None"
    using tracked_after_write [OF w nw] ih by blast
  show ?case
  proof (cases "creates_version_of fid w")
    case False
    then show ?thesis using ih step tracked by simp
  next
    case True
    let ?m = "length (filter (creates_version_of fid) ws)"
    have "map (\<lambda>k. get_next_version_number s fid + int k) [0 ..< Suc ?m]
            = get_next_version_number s fid
                # map (\<lambda>k. get_next_version_number s fid + 1 + int k) [0 ..< ?m]"
      by (subst map_upt_shift) (simp add: add.assoc)
    then show ?thesis using True ih step tracked by simp
  qed
qed

lemma numbers_from_one: "map (\<lambda>k. 1 + int k) [0 ..< m] = [1 .. int m]"
proof (induction m)
  case 0
  show ?case by simp
next
  case (Suc m)
  have "[1 .. int (Suc m)] = [1 .. int m] @ [int m + 1]"
    by (subst upto_rec2) (simp_all add: add.commute)
  then show ?case using Suc by simp
qed

lemma sorted_numbers_append:
  assumes "sorted_wrt (<) xs" and "\<forall>x \<in> set xs. x < (n :: int)"
  shows "sorted_wrt (<) (xs @ map (\<lambda>k. n + int k) [0 ..< m])"
proof -
  have "sorted_wrt (<) (map (\<lambda>k. n + int k) [0 ..< m])"
    by (simp add: sorted_wrt_map)
  then show ?thesis
    using assms by (fastforce simp: sorted_wrt_append)
qed

lemma numbers_after_delete_file: "file_version_numbers (delete_file s fid) fid = []"
  by (simp add: file_version_numbers_def delete_file_def delete_from_files_def Let_def)

text \<open>
  The one operation of the store that deletes version rows is \<^verbatim>\<open>delete_file\<close>, which
  deletes all versions of the file together with the file's record: no version of a file
  that stays tracked is ever deleted.  After \<^verbatim>\<open>delete_file\<close> the id is that of no
  tracked file and the store holds no number for it.
\<close>

lemma delete_file_untracks:
  "get_file (delete_file s fid) fid = None \<and> file_version_numbers (delete_file s fid) fid = []"
proof -
  have "get_file (delete_file s fid) fid = None"
    by (auto simp: get_file_def find_None_iff delete_file_def delete_from_files_def Let_def)
  then show ?thesis
    by (simp add: numbers_after_delete_file)
qed

text \<open>
  Claim C2.  For every store and every file id, with the numbers the store holds for the
  file and the number \<open>next_number\<close> that is one greater than the greatest of them, and 1
  when there is none.  A version that \<^verbatim>\<open>create_version\<close> creates for the file is
  numbered \<open>next_number\<close>, which is greater than every number held, and its row is the one
  row added.  And after any sequence of writes of the store that does not delete the
  file, run one after the other, the file holds the numbers it held before, followed by
  \<open>next_number\<close>, \<open>next_number + 1\<close>, ... for the versions created for it in the
  sequence, in the order of their creation: consecutive integers without gaps, each greater
  than every number assigned to the file before, so that no number is assigned twice; they
  are 1, 2, ... when the file had no version; numbers in strictly increasing order stay so;
  and a tracked file stays tracked.
\<close>

theorem create_version_numbering:
  fixes s :: db and fid :: string
  defines "held \<equiv> file_version_numbers s fid"
  defines "next_number \<equiv> (if held = [] then 1 else Max (set held) + 1)"
  shows "(\<forall>i now msg sz mt h s' v.
            create_version s i now fid msg sz mt h = Inr (s', v) \<longrightarrow>
              version_number v = next_number
            \<and> (\<forall>n \<in> set held. n < version_number v)
            \<and> v_file_id v = fid
            \<and> versions s' = versions s @ [v]
            \<and> file_version_numbers s' fid = held @ [version_number v])
       \<and> (\<forall>ws s'.
            run_writes s ws = Inr s' \<and> W_delete_file fid \<notin> set ws \<longrightarrow>
              file_version_numbers s' fid =
                held @ map (\<lambda>k. next_number + int k)
                         [0 ..< length (filter (creates_version_of fid) ws)]
            \<and> (\<forall>n \<in> set held. n < next_number)
            \<and> (held = [] \<longrightarrow>
                 file_version_numbers s' fid =
                   [1 .. int (length (filter (creates_version_of fid) ws))])
            \<and> (sorted_wrt (<) held \<longrightarrow> sorted_wrt (<) (file_version_numbers s' fid))
            \<and> (get_file s fid \<noteq> None \<longrightarrow> get_file s' fid \<noteq> None))"
proof -
  have nn: "next_number = get_next_version_number s fid"
    by (simp add: next_number_def held_def next_number_eq)
  have below: "\<forall>n \<in> set held. n < next_number"
    using next_number_greater [of _ s fid] by (simp add: nn held_def)
  have one: "version_number v = next_number
            \<and> (\<forall>n \<in> set held. n < version_number v)
            \<and> v_file_id v = fid
            \<and> versions s' = versions s @ [v]
            \<and> file_version_numbers s' fid = held @ [version_number v]"
    if c: "create_version s i now fid msg sz mt h = Inr (s', v)"
    for i now msg sz mt h s' v
  proof -
    have "v_file_id v = fid \<and> versions s' = versions s @ [v]"
      using c by (auto simp: create_version_def Let_def split: if_splits)
    then show ?thesis
      using numbers_after_create [OF c] below by (simp add: nn held_def)
  qed
  have many: "file_version_numbers s' fid =
                held @ map (\<lambda>k. next_number + int k)
                         [0 ..< length (filter (creates_version_of fid) ws)]
            \<and> (\<forall>n \<in> set held. n < next_number)
            \<and> (held = [] \<longrightarrow>
                 file_version_numbers s' fid =
                   [1 .. int (length (filter (creates_version_of fid) ws))])
            \<and> (sorted_wrt (<) held \<longrightarrow> sorted_wrt (<) (file_version_numbers s' fid))
            \<and> (get_file s fid \<noteq> None \<longrightarrow> get_file s' fid \<noteq> None)"
    if r: "run_writes s ws = Inr s' \<and> W_delete_file fid \<notin> set ws" for ws s'
  proof -
    from r have run: "run_writes s ws = Inr s'" and nd: "W_delete_file fid \<notin> set ws"
      by simp_all
    note all = numbers_after_writes [OF run nd]
    have numbers: "file_version_numbers s' fid =
                held @ map (\<lambda>k. next_number + int k)
                         [0 ..< length (filter (creates_version_of fid) ws)]"
      using all by (simp add: nn held_def)
    have from_one: "file_version_numbers s' fid =
                   [1 .. int (length (filter (creates_version_of fid) ws))]"
      if "held = []"
      using numbers that numbers_from_one by (simp add: next_number_def)
    have sorted: "sorted_wrt (<) (file_version_numbers s' fid)" if "sorted_wrt (<) held"
      unfolding numbers using that below by (rule sorted_numbers_append)
    show ?thesis
      using numbers below from_one sorted all by blast
  qed
  show ?thesis
    using one many by blast
qed

text \<open>
  On the example sequence, run on the empty store: the three versions of the first file
  are numbered 1, 2, 3, whatever happens to the other file in between; and a fourth version
  is numbered 4.
\<close>

theorem create_version_numbering_witness:
  "(case run_writes empty_db ex_writes of
      Inl e \<Rightarrow> False
    | Inr s \<Rightarrow>
        file_version_numbers s ''f1'' = [1, 2, 3]
        \<and> get_file s ''f1'' \<noteq> None
        \<and> (case create_version s ''v4'' ''t6'' ''f1'' ''fourth'' 140 4000 None of
             Inl e \<Rightarrow> False
           | Inr (s', v) \<Rightarrow> version_number v = 4 \<and> file_version_numbers s' ''f1'' = [1, 2, 3, 4]))"
proof -
  obtain s where run: "run_writes empty_db ex_writes = Inr s"
    and tracked: "get_file s ''f1'' \<noteq> None"
    and ids: "map v_id (versions s) = [''v1'', ''v2'', ''v3'']"
    by (simp add: ex_writes_def empty_db_def create_file_def create_version_def
        get_next_version_number_def set_version_pinned_def update_file_status_def
        delete_file_def delete_from_files_def connection_foreign_keys_def get_file_def
        Let_def)
  have nd: "W_delete_file ''f1'' \<notin> set ex_writes" by (simp add: ex_writes_def)
  have held: "file_version_numbers empty_db ''f1'' = []"
    by (simp add: file_version_numbers_def empty_db_def)
  have count: "length (filter (creates_version_of ''f1'') ex_writes) = 3"
    by (simp add: ex_writes_def)
  from create_version_numbering [of empty_db "''f1''"] run nd
  have "file_version_numbers s ''f1'' =
          file_version_numbers empty_db ''f1''
            @ map (\<lambda>k. (if file_version_numbers empty_db ''f1'' = [] then 1
                         else Max (set (file_version_numbers empty_db ''f1'')) + 1) + int k)
                [0 ..< length (filter (creates_version_of ''f1'') ex_writes)]"
    by blast
  then have numbers: "file_version_numbers s ''f1'' = [1, 2, 3]"
    by (simp add: held count upt_rec)
  obtain s' v where c: "create_version s ''v4'' ''t6'' ''f1'' ''fourth'' 140 4000 None = Inr (s', v)"
  proof -
    have "get_next_version_number s ''f1'' = 4"
      using numbers by (simp add: next_number_eq)
    moreover have "''v4'' \<notin> set (map v_id (versions s))"
      unfolding ids by simp
    then have "\<not> list_ex (\<lambda>v. v_id v = ''v4'') (versions s)"
      by (force simp: list_ex_iff)
    ultimately show ?thesis
      using that by (simp add: create_version_def Let_def)
  qed
  from create_version_numbering [of s "''f1''"] c
  have "version_number v =
          (if file_version_numbers s ''f1'' = [] then 1
           else Max (set (file_version_numbers s ''f1'')) + 1)
        \<and> file_version_numbers s' ''f1'' = file_version_numbers s ''f1'' @ [version_number v]"
    by blast
  then have "version_number v = 4 \<and> file_version_numbers s' ''f1'' = [1, 2, 3, 4]"
    by (simp add: numbers)
  then show ?thesis
    using run tracked numbers c by simp
qed

subsection \<open>Event rows\<close>


text \<open>
  The other half of the claim, the cascade, is what the schema declares and the connection
  never switches on: on the connection \<^verbatim>\<open>_get_connection\<close> opens, deleting a file leaves
  its Event rows in the table.
\<close>

lemma delete_file_keeps_event_rows:
  "get_file (delete_file store_with_event ''f1'') ''f1'' = None
   \<and> events (delete_file store_with_event ''f1'') = [first_event]"
  by (simp add: delete_file_def delete_from_files_def connection_foreign_keys_def
      store_with_event_def first_event_def get_file_def stored_file_def empty_db_def)



section \<open>Properties of paths and of the file system\<close>

subsection \<open>Parts of a path\<close>

lemma split_on_nonempty: "split_on c s \<noteq> []"
  by (induction s) (auto split: list.splits)

lemma split_on_parts_free: "w \<in> set (split_on c s) \<Longrightarrow> c \<notin> set w"
  by (induction s arbitrary: w) (auto split: if_splits list.splits)

lemma split_on_free: "c \<notin> set s \<Longrightarrow> split_on c s = [s]"
  by (induction s) auto

lemma path_name_Path_free: "CHR ''/'' \<notin> set (path_name (Path s))"
proof -
  let ?ws = "filter (\<lambda>w. w \<noteq> [] \<and> w \<noteq> ''.'') (split_on CHR ''/'' s)"
  show ?thesis
  proof (cases "?ws = []")
    case True
    then show ?thesis by (auto simp: path_name_def Path_def)
  next
    case False
    then have "last ?ws \<in> set ?ws" by (rule last_in_set)
    then have "CHR ''/'' \<notin> set (last ?ws)" by (auto dest: split_on_parts_free)
    with False show ?thesis by (auto simp: path_name_def Path_def)
  qed
qed

lemma set_path_stem: "set (path_stem nm) \<subseteq> set nm"
  by (auto simp: path_stem_def split: option.splits dest: in_set_takeD)

lemma set_path_suffix: "set (path_suffix nm) \<subseteq> set nm"
  by (auto simp: path_suffix_def split: option.splits dest: in_set_dropD)

lemma digit_free: "k < 10 \<Longrightarrow> ''0123456789'' ! k \<noteq> CHR ''/''"
proof -
  assume "k < 10"
  then have "''0123456789'' ! k \<in> set ''0123456789''" by (intro nth_mem) simp
  then show ?thesis by auto
qed

lemma show_nat_free: "CHR ''/'' \<notin> set (show_nat n)"
proof (induction n rule: show_nat.induct)
  case (1 n)
  show ?case
  proof (cases "n < 10")
    case True
    then show ?thesis using digit_free [of n] by (subst show_nat.simps) simp
  next
    case False
    then show ?thesis using 1 digit_free [of "n mod 10"]
      by (subst show_nat.simps) simp
  qed
qed

lemma show_int_free: "CHR ''/'' \<notin> set (show_int i)"
  by (simp add: show_int_def show_nat_free)



lemma Path_simple:
  assumes "CHR ''/'' \<notin> set w" "w \<noteq> []" "w \<noteq> ''.''"
  shows "Path w = [w]"
  using assms by (cases w) (auto simp: Path_def split_on_free)

lemma joinpath_simple:
  assumes "CHR ''/'' \<notin> set w" "w \<noteq> []" "w \<noteq> ''.''"
  shows "joinpath p w = p @ [w]"
proof -
  have "w \<noteq> ''/''" using assms(1) by auto
  then show ?thesis using Path_simple [OF assms] by (simp add: joinpath_def)
qed


subsection \<open>Tables of nodes\<close>

lemma find_map_same_key:
  assumes "\<And>x. P (g x) = P x"
  shows "find P (map g xs) = map_option g (find P xs)"
  using assms by (induction xs) auto


lemma map_of_fs_remove: "map_of (fs_remove p d) q = (if q = p then None else map_of d q)"
  unfolding fs_remove_def by (induction d) auto

lemma map_of_fs_put: "map_of (fs_put p n d) q = (if q = p then Some n else map_of d q)"
  by (simp add: fs_put_def map_of_fs_remove)


lemma mkdirs_keeps_entries:
  "mkdirs d qs = Inr d' \<Longrightarrow> map_of d q = Some x \<Longrightarrow> map_of d' q = Some x"
proof (induction qs arbitrary: d)
  case Nil
  then show ?case by simp
next
  case (Cons r rs)
  show ?case
  proof (cases "map_of d r")
    case None
    with Cons.prems have "mkdirs (fs_put r (Dir 0 0) d) rs = Inr d'" by simp
    moreover from None Cons.prems(2) have "map_of (fs_put r (Dir 0 0) d) q = Some x"
      by (auto simp: map_of_fs_put)
    ultimately show ?thesis by (rule Cons.IH)
  next
    case (Some nd)
    with Cons.prems show ?thesis
      by (cases nd) (auto intro: Cons.IH)
  qed
qed

lemma mkdirs_makes_dirs:
  "mkdirs d qs = Inr d' \<Longrightarrow> q \<in> set qs \<Longrightarrow> is_dir d' q"
proof (induction qs arbitrary: d)
  case Nil
  then show ?case by simp
next
  case (Cons r rs)
  show ?case
  proof (cases "map_of d r")
    case None
    with Cons.prems(1) have run: "mkdirs (fs_put r (Dir 0 0) d) rs = Inr d'" by simp
    show ?thesis
    proof (cases "q = r")
      case True
      have "map_of (fs_put r (Dir 0 0) d) r = Some (Dir 0 0)" by (simp add: map_of_fs_put)
      with run have "map_of d' r = Some (Dir 0 0)" by (rule mkdirs_keeps_entries)
      with True show ?thesis by (simp add: is_dir_def)
    next
      case False
      with Cons.prems(2) have "q \<in> set rs" by simp
      with run show ?thesis by (rule Cons.IH)
    qed
  next
    case (Some nd)
    show ?thesis
    proof (cases nd)
      case (File c m)
      with Some Cons.prems(1) show ?thesis by simp
    next
      case (Dir sz m)
      with Some Cons.prems(1) have run: "mkdirs d rs = Inr d'" by simp
      show ?thesis
      proof (cases "q = r")
        case True
        from run Some Dir have "map_of d' r = Some (Dir sz m)"
          by (auto intro: mkdirs_keeps_entries)
        with True show ?thesis by (simp add: is_dir_def)
      next
        case False
        with Cons.prems(2) have "q \<in> set rs" by simp
        with run show ?thesis by (rule Cons.IH)
      qed
    qed
  qed
qed




lemma version_file_name_free: "CHR ''/'' \<notin> set (version_file_name dn n)"
  using path_name_Path_free [of dn] set_path_stem set_path_suffix show_int_free
  by (auto simp: version_file_name_def Let_def)

lemma version_file_name_not_dot: "version_file_name dn n \<noteq> [] \<and> version_file_name dn n \<noteq> ''.''"
proof -
  have "CHR ''_'' \<in> set (version_file_name dn n)"
    by (simp add: version_file_name_def Let_def)
  then show ?thesis by auto
qed

lemma mkdirs_only_listed:
  "mkdirs d qs = Inr d' \<Longrightarrow> q \<notin> set qs \<Longrightarrow> map_of d' q = map_of d q"
proof (induction qs arbitrary: d)
  case Nil
  then show ?case by simp
next
  case (Cons r rs)
  from Cons.prems(2) have ne: "q \<noteq> r" and nin: "q \<notin> set rs" by auto
  show ?case
  proof (cases "map_of d r")
    case None
    with Cons.prems(1) have "mkdirs (fs_put r (Dir 0 0) d) rs = Inr d'" by simp
    from Cons.IH [OF this nin] ne show ?thesis by (simp add: map_of_fs_put)
  next
    case (Some nd)
    with Cons.prems(1) nin show ?thesis
      by (cases nd) (auto intro: Cons.IH)
  qed
qed

lemma mkdirs_noop: "(\<And>q. q \<in> set qs \<Longrightarrow> is_dir d q) \<Longrightarrow> mkdirs d qs = Inr d"
proof (induction qs)
  case Nil
  then show ?case by simp
next
  case (Cons r rs)
  have "is_dir d r" by (rule Cons.prems) simp
  then obtain sz m where "map_of d r = Some (Dir sz m)"
    by (cases "map_of d r" rule: is_dir_node.cases) (auto simp: is_dir_def)
  moreover have "mkdirs d rs = Inr d" by (rule Cons.IH) (simp add: Cons.prems)
  ultimately show ?case by simp
qed

lemma mkdirs_file_not_listed:
  "mkdirs d qs = Inr d' \<Longrightarrow> map_of d q = Some (File c m) \<Longrightarrow> q \<notin> set qs"
proof (induction qs arbitrary: d)
  case Nil
  then show ?case by simp
next
  case (Cons r rs)
  show ?case
  proof (cases "map_of d r")
    case None
    with Cons.prems(1) have run: "mkdirs (fs_put r (Dir 0 0) d) rs = Inr d'" by simp
    from None Cons.prems(2) have ne: "q \<noteq> r" by auto
    then have "map_of (fs_put r (Dir 0 0) d) q = Some (File c m)"
      using Cons.prems(2) by (simp add: map_of_fs_put)
    from Cons.IH [OF run this] ne show ?thesis by simp
  next
    case (Some nd)
    show ?thesis
    proof (cases nd)
      case (File c2 m2)
      with Some Cons.prems(1) show ?thesis by simp
    next
      case (Dir sz m2)
      with Some Cons.prems(1) have run: "mkdirs d rs = Inr d'" by simp
      from Some Dir Cons.prems(2) have "q \<noteq> r" by auto
      with Cons.IH [OF run Cons.prems(2)] show ?thesis by simp
    qed
  qed
qed

lemma copy2_file_result:
  assumes "copy2 d src dst = Inr d'" and "\<not> is_dir d' dst"
  shows "\<exists>c m. map_of d src = Some (File c m) \<and> d' = fs_put dst (File c m) d \<and> dst \<noteq> src"
proof (cases "is_dir d dst")
  case True
  then have ne: "dst @ [path_name src] \<noteq> dst" by simp
  from assms(1) True obtain c m where "d' = fs_put (dst @ [path_name src]) (File c m) d"
    unfolding copy2_def
    by (auto split: option.splits node.splits if_splits simp: Let_def)
  with ne True have "is_dir d' dst" by (simp add: is_dir_def map_of_fs_put)
  with assms(2) show ?thesis by simp
next
  case False
  with assms(1) show ?thesis
    unfolding copy2_def
    by (auto split: option.splits node.splits if_splits simp: Let_def)
qed

lemma snoc_not_prefix: "p @ [w] \<notin> set (tl (prefixes p))"
proof
  assume "p @ [w] \<in> set (tl (prefixes p))"
  then have "p @ [w] \<in> set (prefixes p)" by (rule list.set_sel(2) [rotated]) simp
  then have "prefix (p @ [w]) p" by (simp add: in_set_prefixes)
  then have "length (p @ [w]) \<le> length p" by (rule prefix_length_le)
  then show False by simp
qed

lemma mkdirs_created:
  "mkdirs d qs = Inr d' \<Longrightarrow> map_of d q = None \<Longrightarrow> q \<in> set qs
   \<Longrightarrow> map_of d' q = Some (Dir 0 0)"
proof (induction qs arbitrary: d)
  case Nil
  then show ?case by simp
next
  case (Cons r rs)
  show ?case
  proof (cases "map_of d r")
    case None
    with Cons.prems(1) have run: "mkdirs (fs_put r (Dir 0 0) d) rs = Inr d'" by simp
    show ?thesis
    proof (cases "q = r")
      case True
      have "map_of (fs_put r (Dir 0 0) d) r = Some (Dir 0 0)" by (simp add: map_of_fs_put)
      with run True show ?thesis by (auto intro: mkdirs_keeps_entries)
    next
      case False
      with Cons.prems have "map_of (fs_put r (Dir 0 0) d) q = None" "q \<in> set rs"
        by (simp_all add: map_of_fs_put)
      with run show ?thesis by (auto intro: Cons.IH)
    qed
  next
    case (Some nd)
    with Cons.prems have "q \<noteq> r" by auto
    with Some Cons.prems show ?thesis
      by (cases nd) (auto intro: Cons.IH)
  qed
qed

lemma mkdir_parents_changes:
  assumes "mkdir_parents d p = Inr d'"
  shows "(\<forall>q x. map_of d q = Some x \<longrightarrow> map_of d' q = Some x)
       \<and> (\<forall>q. map_of d' q \<noteq> map_of d q
              \<longrightarrow> q \<in> set (tl (prefixes p)) \<and> map_of d q = None \<and> map_of d' q = Some (Dir 0 0))"
proof -
  note run = assms [unfolded mkdir_parents_def]
  have keep: "map_of d' q = Some x" if "map_of d q = Some x" for q x
    using run that by (rule mkdirs_keeps_entries)
  have change: "q \<in> set (tl (prefixes p)) \<and> map_of d q = None \<and> map_of d' q = Some (Dir 0 0)"
    if diff: "map_of d' q \<noteq> map_of d q" for q
  proof -
    from diff have listed: "q \<in> set (tl (prefixes p))"
      using mkdirs_only_listed [OF run] by blast
    from diff keep [of q] have none: "map_of d q = None" by (cases "map_of d q") auto
    from run none listed have "map_of d' q = Some (Dir 0 0)" by (rule mkdirs_created)
    with listed none show ?thesis by simp
  qed
  from keep change show ?thesis by blast
qed

section \<open>Properties of the version and backup manager\<close>

subsection \<open>Reading the store\<close>

lemma get_file_update_file_metadata:
  "get_file (update_file_metadata s fid sz mt st h) fid' =
     map_option (\<lambda>f. if tf_id f = fid
                       then f\<lparr>file_size := sz, modified_time := mt, status := st, file_hash := h\<rparr>
                       else f) (get_file s fid')"
  unfolding get_file_def update_file_metadata_def
  by (simp add: find_map_same_key)

lemma get_file_Some_id: "get_file s fid = Some f \<Longrightarrow> tf_id f = fid"
  unfolding get_file_def by (auto simp: find_Some_iff)

lemma check_file_status_no_stored_hash:
  assumes "\<not> truthy (file_hash tf)" and "path_exists d (file_path tf)"
    and "fs_file_size (get_file_state H d (file_path tf) False) \<noteq> file_size tf
         \<or> fs_modified_time (get_file_state H d (file_path tf) False) \<noteq> modified_time tf"
  shows "check_file_status H d tf True = MODIFIED"
proof -
  have "fs_exists (get_file_state H d (file_path tf) False)"
    using assms(2) by (auto simp: get_file_state_def path_exists_def split: option.splits)
  with assms(1,3) show ?thesis
    unfolding check_file_status_def Let_def by auto
qed

subsection \<open>Restore\<close>

lemma restore_version_True:
  assumes "restore_version H sv s d file_id n = Inr (True, s', d')"
  obtains tf d1 bp where "get_file s file_id = Some tf"
    and "get_version_backup_path sv s d file_id n = Inr (d1, Some bp)"
    and "copy2 d1 bp (file_path tf) = Inr d'"
    and "s' = update_file_metadata s file_id
                (fs_file_size (get_file_state H d' (file_path tf) True))
                (fs_modified_time (get_file_state H d' (file_path tf) True)) OK None"
  using assms unfolding restore_version_def
  by (auto split: option.splits sum.splits simp: Let_def)

text \<open>
  Claim C10.  After a restore that succeeds, the record of the file differs from what it
  was in four fields only: size and modification time are those of the live file after
  the copy, the status is OK, and the stored hash is null, since the update is issued
  without a hash.  The records of other files, the versions and the events are as before.
  A later \<^verbatim>\<open>check_file_status\<close> therefore has no stored hash to compare: whenever the
  live size or modification time differs from the stored one, the result is MODIFIED.
\<close>

theorem restore_version_clears_hash:
  assumes "restore_version H sv s d file_id n = Inr (True, s', d')"
  shows "\<exists>tf. get_file s file_id = Some tf
           \<and> get_file s' file_id =
               Some (tf\<lparr>file_size := fs_file_size (get_file_state H d' (file_path tf) True),
                        modified_time := fs_modified_time (get_file_state H d' (file_path tf) True),
                        status := OK,
                        file_hash := None\<rparr>)
           \<and> (\<forall>other. other \<noteq> file_id \<longrightarrow> get_file s' other = get_file s other)
           \<and> versions s' = versions s \<and> events s' = events s
           \<and> (\<forall>tf' later. get_file s' file_id = Some tf'
                 \<and> path_exists later (file_path tf')
                 \<and> (fs_file_size (get_file_state H later (file_path tf') False) \<noteq> file_size tf'
                    \<or> fs_modified_time (get_file_state H later (file_path tf') False)
                         \<noteq> modified_time tf')
                 \<longrightarrow> check_file_status H later tf' True = MODIFIED)"
proof -
  from assms obtain tf d1 bp where tf: "get_file s file_id = Some tf"
    and s': "s' = update_file_metadata s file_id
                (fs_file_size (get_file_state H d' (file_path tf) True))
                (fs_modified_time (get_file_state H d' (file_path tf) True)) OK None"
    by (rule restore_version_True)
  have id: "tf_id tf = file_id" using tf by (rule get_file_Some_id)
  have new: "get_file s' file_id =
               Some (tf\<lparr>file_size := fs_file_size (get_file_state H d' (file_path tf) True),
                        modified_time := fs_modified_time (get_file_state H d' (file_path tf) True),
                        status := OK,
                        file_hash := None\<rparr>)"
    by (simp add: s' get_file_update_file_metadata tf id)
  have others: "get_file s' other = get_file s other" if "other \<noteq> file_id" for other
  proof (cases "get_file s other")
    case None
    then show ?thesis by (simp add: s' get_file_update_file_metadata)
  next
    case (Some g)
    then have "tf_id g = other" by (rule get_file_Some_id)
    with that Some show ?thesis by (simp add: s' get_file_update_file_metadata)
  qed
  have rows: "versions s' = versions s" "events s' = events s"
    by (simp_all add: s' update_file_metadata_def)
  have later: "check_file_status H later tf' True = MODIFIED"
    if "get_file s' file_id = Some tf'" and "path_exists later (file_path tf')"
      and "fs_file_size (get_file_state H later (file_path tf') False) \<noteq> file_size tf'
           \<or> fs_modified_time (get_file_state H later (file_path tf') False) \<noteq> modified_time tf'"
    for tf' later
  proof -
    from that(1) new have "file_hash tf' = None" by auto
    then have "\<not> truthy (file_hash tf')" by simp
    then show ?thesis using that(2,3) by (rule check_file_status_no_stored_hash)
  qed
  show ?thesis
    using tf new others rows later by blast
qed

theorem restore_version_clears_hash_witness:
  "restore_version id ex_service registered_store changed_disk ''F'' 1
     = Inr (True, restored_store, restored_disk)
   \<and> map_option file_hash (get_file registered_store ''F'') = Some (Some ''hello'')
   \<and> map_option file_hash (get_file restored_store ''F'') = Some None"
proof -
  have run: "restore_version id ex_service registered_store changed_disk ''F'' 1
               = Inr (True, restored_store, restored_disk)"
    by code_simp
  have before: "map_option file_hash (get_file registered_store ''F'') = Some (Some ''hello'')"
    by code_simp
  from restore_version_clears_hash [OF run]
  have "map_option file_hash (get_file restored_store ''F'') = Some None"
    by auto
  with run before show ?thesis by simp
qed

text \<open>
  Claim C4 fails on the code where the display name of the file and the name of its file
  on disk differ.  \<^verbatim>\<open>_backup_file\<close> names the artifact after the source file
  (\<^verbatim>\<open>a_v1.txt\<close>), \<^verbatim>\<open>get_version_backup_path\<close> looks for it under the display name
  (\<^verbatim>\<open>notes_v1.txt\<close>, then \<^verbatim>\<open>v1.txt\<close>): after a registration with the display name
  \<^verbatim>\<open>notes.txt\<close> the restore of version 1 reports failure and the overwritten bytes stay.
\<close>

theorem restore_after_register_with_display_name:
  "(case register_mutate_restore (Some ''notes.txt'') of
      Inl e \<Rightarrow> False
    | Inr (ok, s, d) \<Rightarrow>
        \<not> ok
        \<and> map_of d [''/'', ''d'', ''a.txt''] = Some (File ''changed!'' 20)
        \<and> map_of d [''/'', ''data'', ''versions'', ''F'', ''a_v1.txt''] = Some (File ''hello'' 10)
        \<and> map_of d [''/'', ''data'', ''versions'', ''F'', ''notes_v1.txt''] = None
        \<and> map_of d [''/'', ''data'', ''versions'', ''F'', ''v1.txt''] = None
        \<and> map_option display_name (get_file s ''F'') = Some ''notes.txt'')"
  by code_simp

text \<open>With the default display name the same run restores the bytes of the registration.\<close>

lemma restore_after_register_default:
  "register_mutate_restore None = Inr (True, restored_store, restored_disk)
   \<and> map_of restored_disk [''/'', ''d'', ''a.txt''] = Some (File ''hello'' 10)
   \<and> map_option status (get_file restored_store ''F'') = Some OK"
  by code_simp

text \<open>
  In general: when a file is registered under its default display name and the backup
  artifact is a file, then whatever bytes and modification time the file is overwritten
  with, the restore of the registered version succeeds, puts the bytes and the
  modification time of the registration back, and stores them with status OK.
\<close>

lemma get_file_appended:
  assumes "\<not> list_ex (\<lambda>f. tf_id f = fid) fs" and "tf_id tf = fid"
  shows "find (\<lambda>f. tf_id f = fid) (fs @ [tf]) = Some tf"
  using assms by (induction fs) (auto simp: list_ex_iff)

lemma register_file_default:
  assumes "register_file H sv s d p msg None fid fnow vid vnow = Inr ((tf, v), s1, d1)"
  shows "\<exists>c m da.
           map_of d p = Some (File c m)
         \<and> display_name tf = path_name p \<and> tf_id tf = fid \<and> file_path tf = p
         \<and> get_file s1 fid = Some tf
         \<and> mkdir_parents d (get_version_dir sv fid) = Inr da
         \<and> copy2 da p (joinpath (get_version_dir sv fid)
                          (version_file_name (path_name p) (version_number v)))
             = Inr d1"
proof -
  from assms have ex: "path_exists d p" and nt: "get_file_by_path s p = None"
    by (auto simp: register_file_def split: if_splits option.splits)
  let ?st = "get_file_state H d p True"
  from assms ex nt obtain s0 where
      cf: "create_file s fid fnow (path_name p) p (fs_file_size ?st) (fs_modified_time ?st)
             (fs_file_hash ?st) = Inr (s0, tf)"
    and cv: "create_version s0 vid vnow (tf_id tf) msg (fs_file_size ?st) (fs_modified_time ?st)
             (fs_file_hash ?st) = Inr (s1, v)"
    and bk: "\<exists>bp. backup_file sv d p (tf_id tf) (version_number v) = Inr (d1, bp)"
    unfolding register_file_def
    by (auto simp: Let_def split: sum.splits prod.splits)
  from cf have tf: "display_name tf = path_name p" "tf_id tf = fid" "file_path tf = p"
    and s0: "files s0 = files s @ [tf]"
    and fresh: "\<not> list_ex (\<lambda>f. tf_id f = fid) (files s)"
    by (auto simp: create_file_def Let_def list_ex_iff split: if_splits)
  from cv have "files s1 = files s0"
    by (auto simp: create_version_def Let_def split: if_splits)
  with s0 fresh tf(2) have gf: "get_file s1 fid = Some tf"
    by (simp add: get_file_def get_file_appended)
  from bk tf(2) obtain da where
      mk: "mkdir_parents d (get_version_dir sv fid) = Inr da"
    and cp: "copy2 da p (joinpath (get_version_dir sv fid)
                          (version_file_name (path_name p) (version_number v))) = Inr d1"
    unfolding backup_file_def get_version_path_def
    by (auto simp: Let_def split: sum.splits prod.splits)
  from cp obtain c m where src: "map_of da p = Some (File c m)"
    unfolding copy2_def by (auto simp: Let_def split: option.splits node.splits)
  have "map_of d p = Some (File c m)"
  proof (cases "map_of d p")
    case None
    with ex show ?thesis by (simp add: path_exists_def)
  next
    case (Some nd)
    from mk Some have "map_of da p = Some nd"
      unfolding mkdir_parents_def by (rule mkdirs_keeps_entries)
    with src Some show ?thesis by simp
  qed
  then show ?thesis using tf gf mk cp by auto
qed

lemma register_restore_round_trip:
  assumes reg: "register_file H sv s d p msg None fid fnow vid vnow = Inr ((tf, v), s1, d1)"
    and artifact: "\<not> is_dir d1 (joinpath (get_version_dir sv fid)
                              (version_file_name (path_name p) (version_number v)))"
  shows "\<exists>c m. map_of d p = Some (File c m)
           \<and> restore_version H sv s1 (fs_put p (File c' m') d1) fid (version_number v)
               = Inr (True,
                      update_file_metadata s1 fid (length c) m OK None,
                      fs_put p (File c m) (fs_put p (File c' m') d1))"
proof -
  let ?n = "version_number v"
  let ?vdir = "get_version_dir sv fid"
  let ?w = "version_file_name (path_name p) ?n"
  let ?bp = "joinpath ?vdir ?w"
  let ?d2 = "fs_put p (File c' m') d1"
  from register_file_default [OF reg] obtain c m da where
      src: "map_of d p = Some (File c m)"
    and tf: "display_name tf = path_name p" "file_path tf = p"
    and gf: "get_file s1 fid = Some tf"
    and mk: "mkdir_parents d ?vdir = Inr da"
    and cp: "copy2 da p ?bp = Inr d1"
    by blast
  have w: "CHR ''/'' \<notin> set ?w" "?w \<noteq> []" "?w \<noteq> ''.''"
    using version_file_name_free version_file_name_not_dot by auto
  have bp: "?bp = ?vdir @ [?w]" using w by (rule joinpath_simple)
  from copy2_file_result [OF cp artifact] obtain c2 m2 where
      "map_of da p = Some (File c2 m2)" and d1: "d1 = fs_put ?bp (File c2 m2) da"
    and ne: "?bp \<noteq> p"
    by blast
  moreover from mk src have "map_of da p = Some (File c m)"
    unfolding mkdir_parents_def by (rule mkdirs_keeps_entries)
  ultimately have d1': "d1 = fs_put ?bp (File c m) da" by simp
  have at_bp: "map_of ?d2 ?bp = Some (File c m)"
    using ne by (simp add: d1' map_of_fs_put)
  have at_p: "map_of ?d2 p = Some (File c' m')" by (simp add: map_of_fs_put)
  have dirs: "is_dir ?d2 q" if q: "q \<in> set (tl (prefixes ?vdir))" for q
  proof -
    from mk q have "is_dir da q" unfolding mkdir_parents_def by (rule mkdirs_makes_dirs)
    moreover have "q \<noteq> ?bp" using q snoc_not_prefix [of ?vdir ?w] by (auto simp: bp)
    moreover have "q \<noteq> p"
      using mkdirs_file_not_listed [OF mk [unfolded mkdir_parents_def] src] q by auto
    ultimately show ?thesis by (simp add: d1' is_dir_def map_of_fs_put)
  qed
  have mk2: "mkdir_parents ?d2 ?vdir = Inr ?d2"
    unfolding mkdir_parents_def by (rule mkdirs_noop) (rule dirs)
  have look: "get_version_backup_path sv s1 ?d2 fid ?n = Inr (?d2, Some ?bp)"
    using at_bp
    by (simp add: get_version_backup_path_def gf get_version_path_def mk2 tf(1)
        path_exists_def Let_def)
  have not_dir: "\<not> is_dir ?d2 p" using at_p by (simp add: is_dir_def)
  have copied: "copy2 ?d2 ?bp p = Inr (fs_put p (File c m) ?d2)"
    using at_bp at_p ne not_dir by (simp add: copy2_def Let_def)
  have state: "fs_file_size (get_file_state H (fs_put p (File c m) ?d2) p True) = length c"
    "fs_modified_time (get_file_state H (fs_put p (File c m) ?d2) p True) = m"
    by (simp_all add: get_file_state_def map_of_fs_put)
  have "restore_version H sv s1 ?d2 fid ?n
          = Inr (True, update_file_metadata s1 fid (length c) m OK None, fs_put p (File c m) ?d2)"
    by (simp add: restore_version_def gf look tf(2) copied state Let_def)
  with src show ?thesis by blast
qed

text \<open>
  A restore that reports failure leaves the store as it is, and the disk too but for the
  directories that computing the artifact's path creates when the backup directory of the
  file is missing.  A verification after a restore stores the hash again.
\<close>

lemma restore_version_no_record:
  "get_file s fid = None \<Longrightarrow> restore_version H sv s d fid n = Inr (False, s, d)"
  by (simp add: restore_version_def)

lemma restore_version_False:
  assumes "restore_version H sv s d fid n = Inr (False, s', d')"
  shows "s' = s
       \<and> (\<forall>q x. map_of d q = Some x \<longrightarrow> map_of d' q = Some x)
       \<and> (\<forall>q. map_of d' q \<noteq> map_of d q
              \<longrightarrow> q \<in> set (tl (prefixes (get_version_dir sv fid)))
                  \<and> map_of d' q = Some (Dir 0 0))"
proof (cases "get_file s fid")
  case None
  with assms show ?thesis by (simp add: restore_version_def)
next
  case (Some tf)
  with assms have look: "get_version_backup_path sv s d fid n = Inr (d', None)" and s': "s' = s"
    unfolding restore_version_def
    by (auto simp: Let_def split: sum.splits option.splits prod.splits)
  from look Some have "mkdir_parents d (get_version_dir sv fid) = Inr d'"
    unfolding get_version_backup_path_def get_version_path_def
    by (auto simp: Let_def split: sum.splits if_splits)
  from mkdir_parents_changes [OF this] s' show ?thesis by blast
qed

lemma verify_file_recomputes_hash:
  assumes "get_file s fid = Some tf" and "\<not> truthy (file_hash tf)"
    and "map_of d (file_path tf) = Some (File c m)" and "H c \<noteq> []"
  shows "\<exists>st s'. verify_file H s d fid = Inr (st, s')
           \<and> map_option file_hash (get_file s' fid) = Some (Some (H c))"
proof -
  have id: "tf_id tf = fid" using assms(1) by (rule get_file_Some_id)
  have h: "compute_file_hash H d (file_path tf) = Some (H c)"
    using assms(3) by (simp add: compute_file_hash_def path_exists_def)
  have "check_file_status H d tf True \<noteq> MISSING"
    using assms(3) by (auto simp: check_file_status_def get_file_state_def Let_def)
  then show ?thesis
    using assms(1,2,4) h id
    by (simp add: verify_file_def Let_def get_file_update_file_metadata)
qed

lemma restore_failure_creates_directory:
  "restore_version id ex_service registered_store ex_disk ''F'' 1
     = Inr (False, registered_store,
            ([''/'', ''data'', ''versions'', ''F''], Dir 0 0) # ex_disk)"
  by code_simp

subsection \<open>Pin and unpin\<close>






section \<open>Properties of the relink resolver\<close>

subsection \<open>The selection\<close>

text \<open>
  The candidates of a name are narrowed to those of the recorded size when there is one.
  The hash search takes the first candidate whose hash is the stored one and has hashed
  the candidates up to it; \<^verbatim>\<open>min\<close> takes a candidate of least distance, the first of them.
\<close>

lemma hash_search_found:
  "hash_search H d h es k = (Some (e, h'), k') \<Longrightarrow>
     \<exists>pre post. es = pre @ e # post
        \<and> compute_file_hash H d (cand_path e) = h \<and> h' = h
        \<and> (\<forall>x \<in> set pre. compute_file_hash H d (cand_path x) \<noteq> h)
        \<and> k' = k + length pre + 1"
proof (induction es arbitrary: k)
  case Nil
  then show ?case by simp
next
  case (Cons x es)
  show ?case
  proof (cases "compute_file_hash H d (cand_path x) = h")
    case True
    with Cons.prems have "e = x" "h' = h" "k' = k + 1" by (auto simp: Let_def)
    with True show ?thesis by (intro exI [of _ "[]"] exI [of _ es]) simp
  next
    case False
    with Cons.prems have "hash_search H d h es (k + 1) = (Some (e, h'), k')"
      by (simp add: Let_def)
    from Cons.IH [OF this] obtain pre post where
      "es = pre @ e # post" "compute_file_hash H d (cand_path e) = h" "h' = h"
      "\<forall>x \<in> set pre. compute_file_hash H d (cand_path x) \<noteq> h" "k' = k + 1 + length pre + 1"
      by blast
    with False show ?thesis
      by (intro exI [of _ "x # pre"] exI [of _ post]) simp
  qed
qed

lemma hash_search_not_found:
  "hash_search H d h es k = (None, k') \<Longrightarrow>
     (\<forall>x \<in> set es. compute_file_hash H d (cand_path x) \<noteq> h) \<and> k' = k + length es"
proof (induction es arbitrary: k)
  case Nil
  then show ?case by simp
next
  case (Cons x es)
  from Cons.prems have ne: "compute_file_hash H d (cand_path x) \<noteq> h"
    and rest: "hash_search H d h es (k + 1) = (None, k')"
    by (auto simp: Let_def split: if_splits)
  from Cons.IH [OF rest] ne show ?case by simp
qed

lemma min_by_first_least:
  "\<exists>pre post. b # xs = pre @ min_by key b xs # post
      \<and> (\<forall>x \<in> set pre. key (min_by key b xs) < key x)
      \<and> (\<forall>x \<in> set post. key (min_by key b xs) \<le> key x)"
proof (induction xs arbitrary: b rule: rev_induct)
  case Nil
  show ?case by (intro exI [of _ "[]"]) simp
next
  case (snoc y ys)
  have step: "min_by key b (ys @ [y]) =
      (if key y < key (min_by key b ys) then y else min_by key b ys)" for b
    by (induction ys arbitrary: b) auto
  from snoc [of b] obtain pre post where
      split: "b # ys = pre @ min_by key b ys # post"
    and before: "\<forall>x \<in> set pre. key (min_by key b ys) < key x"
    and after: "\<forall>x \<in> set post. key (min_by key b ys) \<le> key x"
    by blast
  show ?case
  proof (cases "key y < key (min_by key b ys)")
    case True
    have all: "\<forall>x \<in> set (b # ys). key y < key x"
    proof
      fix x assume "x \<in> set (b # ys)"
      then have "x \<in> set pre \<or> x = min_by key b ys \<or> x \<in> set post"
        unfolding split by auto
      with before after True show "key y < key x" by force
    qed
    show ?thesis
      using True all step [of b]
      by (intro exI [of _ "b # ys"] exI [of _ "[]"]) simp
  next
    case False
    then show ?thesis
      using split before after step [of b]
      by (intro exI [of _ pre] exI [of _ "post @ [y]"]) auto
  qed
qed

lemma candidate_entries_narrowed:
  "candidate_entries idx tf =
     (let candidates = index_get idx (path_name (file_path tf)) in
      if \<exists>c \<in> set candidates. cand_size c = file_size tf
      then filter (\<lambda>c. cand_size c = file_size tf) candidates
      else candidates)"
  by (auto simp: candidate_entries_def Let_def filter_empty_conv)

subsection \<open>The call\<close>

text \<open>
  A walk that returns has not touched the counters, and a loop that returns a summary has
  relinked nothing: the name \<^verbatim>\<open>EventType\<close> is not bound in the module, so the first
  selection ends the call.
\<close>

lemma scan_names_unbound:
  "scan_names d exts mx co dirpath names (idx, None) = Inr (idx', sm') \<Longrightarrow> sm' = None"
proof (induction names arbitrary: idx)
  case Nil
  then show ?case by simp
next
  case (Cons nm names)
  then show ?case
    by (auto simp: Let_def count_size_filtered_def count_date_filtered_def
        split: if_splits option.splits)
qed

lemma scan_walk_unbound:
  "scan_walk d exts mx co walk (idx, None) = Inr (idx', sm') \<Longrightarrow> sm' = None"
proof (induction walk arbitrary: idx)
  case Nil
  then show ?case by simp
next
  case (Cons dn walk)
  obtain dirpath filenames where dn: "dn = (dirpath, filenames)" by (cases dn)
  from Cons.prems dn obtain idx1 sm1 where
      first: "scan_names d exts mx co dirpath filenames (idx, None) = Inr (idx1, sm1)"
    and rest: "scan_walk d exts mx co walk (idx1, sm1) = Inr (idx', sm')"
    by (auto split: sum.splits)
  from first have "sm1 = None" by (rule scan_names_unbound)
  with rest show ?case using Cons.IH by simp
qed

lemma file_service_has_no_EventType:
  "\<not> list_ex (\<lambda>g. g = ''EventType'') file_service_globals"
  by (simp add: file_service_globals_def)

lemma relink_loop_returns_unrelinked:
  "relink_loop H d use_hash idx fresh s sm missing = (s', Inr sm')
   \<Longrightarrow> s' = s \<and> relinked sm' = relinked sm
       \<and> size_filtered sm' = size_filtered sm \<and> date_filtered sm' = date_filtered sm
       \<and> checked sm' = checked sm \<and> scanned sm' = scanned sm
       \<and> not_found sm' = not_found sm + length missing"
proof (induction missing arbitrary: sm)
  case Nil
  then show ?case by simp
next
  case (Cons tf rest)
  obtain chosen hashed where ch: "choose_candidate H d use_hash idx tf = (chosen, hashed)"
    by (cases "choose_candidate H d use_hash idx tf")
  show ?case
  proof (cases chosen)
    case None
    with Cons.prems ch have
      "relink_loop H d use_hash idx fresh s
         (sm\<lparr>hash_checked := hash_checked sm + hashed, not_found := not_found sm + 1\<rparr>) rest
       = (s', Inr sm')" by simp
    from Cons.IH [OF this] show ?thesis by simp
  next
    case (Some eh)
    obtain entry new_hash where eh: "eh = (entry, new_hash)" by (cases eh)
    from Cons.prems ch Some eh file_service_has_no_EventType show ?thesis
      by (auto simp: Let_def split: sum.splits)
  qed
qed

lemma relink_never_reports:
  assumes "relink_missing_files H s d walk now fresh root_path use_hash include_exts
             max_size_bytes modified_within_days = (s', Inr sm)"
  shows "s' = s \<and> relinked sm = 0 \<and> size_filtered sm = 0 \<and> date_filtered sm = 0
         \<and> not_found sm = checked sm"
  using assms unfolding relink_missing_files_def
  by (auto simp: Let_def split: if_splits sum.splits dest!: relink_loop_returns_unrelinked)

text \<open>
  Claim C3 fails on the code at its own scenario.  The selection is as the claim says: the
  candidates are narrowed to the recorded size and \<^verbatim>\<open>old/report.pdf\<close>, nearest in
  modification time, is chosen, and path, size, modification time and status of the
  tracked file are updated.  Then the call raises \<^verbatim>\<open>NameError\<close> at
  \<^verbatim>\<open>EventType.RELINK\<close>: no RELINK event is written, the relinked counter is never
  incremented and no summary is returned.
\<close>

theorem relink_scenario_raises_NameError:
  "choose_candidate id scan_disk False
      [(''report.pdf'',
        [\<lparr>cand_path = [''/'', ''scan'', ''new'', ''report.pdf''], cand_size = 500,
          cand_mtime = 1100\<rparr>,
         \<lparr>cand_path = [''/'', ''scan'', ''old'', ''report.pdf''], cand_size = 500,
          cand_mtime = 1001\<rparr>])]
      report_file
     = (Some (\<lparr>cand_path = [''/'', ''scan'', ''old'', ''report.pdf''], cand_size = 500,
               cand_mtime = 1001\<rparr>, None), 0)
   \<and> relink_scenario None =
       (report_store\<lparr>files :=
          [report_file\<lparr>file_path := [''/'', ''scan'', ''old'', ''report.pdf''],
                       file_size := 500, modified_time := 1001, status := OK\<rparr>]\<rparr>,
        Inl (NameError ''EventType''))"
  by code_simp

text \<open>
  Claim C6 fails on the code: an entry over the size limit is not counted, the increment
  of \<^verbatim>\<open>summary["size_filtered"]\<close> reads a local variable that is assigned only after the
  walk, and the call raises \<^verbatim>\<open>UnboundLocalError\<close>.  Here the limit is 100 bytes and the
  files have 500.
\<close>

theorem relink_size_filter_raises:
  "relink_scenario (Some 100) = (report_store, Inl (UnboundLocalError ''summary''))"
  by code_simp

text \<open>
  When the call does return, \<^verbatim>\<open>scanned\<close> is the number of distinct file names of the
  index, not of candidates: two candidates were indexed here.
\<close>

lemma relink_unmatched_summary:
  "relink_unmatched =
     (unmatched_store,
      Inr \<lparr>checked = 1, relinked = 0, not_found = 1, scanned = 1, hash_checked = 0,
           size_filtered = 0, date_filtered = 0\<rparr>)"
  by code_simp
section \<open>Properties of the job scheduler\<close>

lemma run_job_no_handler:
  assumes "hs (job_type job) = None"
  shows "run_job hs job =
           (job\<lparr>job_status := FAILED, progress := 0,
                 job_error := Some ''No handler for job type''\<rparr>,
            [job_updated (job\<lparr>job_status := RUNNING, progress := 0\<rparr>),
             job_completed (job\<lparr>job_status := FAILED, progress := 0,
                                 job_error := Some ''No handler for job type''\<rparr>)],
            None)"
  using assms by (simp add: run_job_def Let_def)








section \<open>Properties of the schema migration\<close>

lemma find_append:
  "find P (xs @ ys) = (case find P xs of None \<Rightarrow> find P ys | Some x \<Rightarrow> Some x)"
  by (induction xs) auto

lemma find_table_create_table:
  "find_table db nm = Some t \<Longrightarrow> find_table (create_table_if_not_exists nm' cols db) nm = Some t"
  by (auto simp: find_table_def create_table_if_not_exists_def find_append split: option.splits)

lemma find_table_created:
  "find_table (create_table_if_not_exists nm cols db) nm \<noteq> None"
  by (auto simp: find_table_def create_table_if_not_exists_def find_append same_name_def
      split: option.splits)

lemma find_table_add_column:
  assumes "alter_table_add_column tname col dflt db = Inr db'"
  shows "find_table db' nm =
           map_option (\<lambda>t. if same_name nm tname
                            then \<lparr>t_columns = t_columns t @ [col],
                                  t_rows = map (\<lambda>r. r @ [dflt]) (t_rows t)\<rparr>
                            else t) (find_table db nm)"
proof -
  let ?g = "\<lambda>nt. if same_name (fst nt) tname
                  then (fst nt, \<lparr>t_columns = t_columns (snd nt) @ [col],
                                t_rows = map (\<lambda>r. r @ [dflt]) (t_rows (snd nt))\<rparr>)
                  else nt"
  let ?P = "\<lambda>nt. same_name (fst nt) nm"
  from assms have db': "sql_tables db' = map ?g (sql_tables db)"
    by (auto simp: alter_table_add_column_def split: option.splits if_splits)
  have "find ?P (map ?g (sql_tables db)) = map_option ?g (find ?P (sql_tables db))"
    by (rule find_map_same_key) simp
  moreover have "map_option snd (map_option ?g (find ?P (sql_tables db)))
      = map_option (\<lambda>t. if same_name nm tname
                            then \<lparr>t_columns = t_columns t @ [col],
                                  t_rows = map (\<lambda>r. r @ [dflt]) (t_rows t)\<rparr>
                            else t) (map_option snd (find ?P (sql_tables db)))"
  proof (cases "find ?P (sql_tables db)")
    case None
    then show ?thesis by simp
  next
    case (Some nt)
    then have "same_name (fst nt) nm" by (auto simp: find_Some_iff)
    then have "same_name (fst nt) tname = same_name nm tname" by (simp add: same_name_def)
    with Some show ?thesis by simp
  qed
  ultimately show ?thesis by (simp add: find_table_def db')
qed

lemma table_info_add_column:
  assumes "alter_table_add_column tname col dflt db = Inr db'"
  shows "set (table_info db nm) \<subseteq> set (table_info db' nm)"
    and "col \<in> set (table_info db' tname)"
proof -
  show "set (table_info db nm) \<subseteq> set (table_info db' nm)"
    by (auto simp: table_info_def find_table_add_column [OF assms] split: option.splits)
  from assms obtain t where "find_table db tname = Some t"
    by (auto simp: alter_table_add_column_def split: option.splits)
  then show "col \<in> set (table_info db' tname)"
    by (simp add: table_info_def find_table_add_column [OF assms] same_name_def)
qed

lemma add_column_indexes:
  "alter_table_add_column tname col dflt db = Inr db' \<Longrightarrow> sql_indexes db' = sql_indexes db"
  by (auto simp: alter_table_add_column_def split: option.splits if_splits)

lemma create_index_tables:
  "create_index_if_not_exists iname tname col db = Inr db' \<Longrightarrow> sql_tables db' = sql_tables db"
  by (auto simp: create_index_if_not_exists_def split: option.splits if_splits)

lemma create_index_indexes:
  "create_index_if_not_exists iname tname col db = Inr db'
   \<Longrightarrow> \<exists>more. sql_indexes db' = sql_indexes db @ more
          \<and> list_ex (\<lambda>i. same_name (fst i) iname) (sql_indexes db')"
  by (auto simp: create_index_if_not_exists_def same_name_def split: option.splits if_splits)

lemma satisfied_noop: "satisfied st db \<Longrightarrow> execute st db = Inr db"
  by (cases st) (auto simp: create_table_if_not_exists_def create_index_if_not_exists_def)

lemma executed_satisfied: "execute st db = Inr db' \<Longrightarrow> satisfied st db'"
proof (cases st)
  case (Create_table nm cols)
  assume "execute st db = Inr db'"
  with Create_table show ?thesis using find_table_created by auto
next
  case (Create_index iname tname col)
  assume "execute st db = Inr db'"
  with Create_index show ?thesis using create_index_indexes by auto
next
  case (Add_column_if_missing tname col dflt)
  assume "execute st db = Inr db'"
  with Add_column_if_missing show ?thesis
    using table_info_add_column(2) by (auto split: if_splits)
qed

lemma find_table_tables: "sql_tables db' = sql_tables db \<Longrightarrow> find_table db' nm = find_table db nm"
  by (simp add: find_table_def)

lemma satisfied_kept:
  assumes "satisfied st db" and "execute st2 db = Inr db'"
  shows "satisfied st db'"
proof (cases st2)
  case (Create_table nm2 cols2)
  with assms(2) have db': "db' = create_table_if_not_exists nm2 cols2 db" by simp
  show ?thesis
  proof (cases st)
    case (Create_table nm cols)
    with assms(1) db' show ?thesis using find_table_create_table by auto
  next
    case (Create_index iname tname col)
    with assms(1) db' show ?thesis by (auto simp: create_table_if_not_exists_def)
  next
    case (Add_column_if_missing tname col dflt)
    with assms(1) have "col \<in> set (table_info db tname)" by simp
    then obtain t :: sql_table where "find_table db tname = Some t" "col \<in> set (t_columns t)"
      by (cases "find_table db tname") (auto simp: table_info_def)
    with Add_column_if_missing db' show ?thesis
      using find_table_create_table [of db tname t nm2 cols2] by (simp add: table_info_def)
  qed
next
  case (Create_index iname2 tname2 col2)
  with assms(2) have run: "create_index_if_not_exists iname2 tname2 col2 db = Inr db'" by simp
  note tabs = find_table_tables [OF create_index_tables [OF run]]
  from create_index_indexes [OF run] obtain more where
    ix: "sql_indexes db' = sql_indexes db @ more" by blast
  show ?thesis
  proof (cases st)
    case (Create_table nm cols)
    with assms(1) tabs show ?thesis by simp
  next
    case (Create_index iname tname col)
    with assms(1) ix show ?thesis by auto
  next
    case (Add_column_if_missing tname col dflt)
    with assms(1) tabs show ?thesis by (simp add: table_info_def)
  qed
next
  case (Add_column_if_missing tname2 col2 dflt2)
  show ?thesis
  proof (cases "col2 \<in> set (table_info db tname2)")
    case True
    with assms Add_column_if_missing show ?thesis by simp
  next
    case False
    with assms(2) Add_column_if_missing
    have run: "alter_table_add_column tname2 col2 dflt2 db = Inr db'" by simp
    show ?thesis
    proof (cases st)
      case (Create_table nm cols)
      with assms(1) show ?thesis by (auto simp: find_table_add_column [OF run])
    next
      case (Create_index iname tname col)
      with assms(1) show ?thesis by (simp add: add_column_indexes [OF run])
    next
      case st: (Add_column_if_missing tname col dflt)
      with assms(1) show ?thesis using table_info_add_column(1) [OF run] by auto
    qed
  qed
qed

lemma satisfied_kept_all:
  "satisfied st db \<Longrightarrow> execute_all sts db = Inr db' \<Longrightarrow> satisfied st db'"
proof (induction sts arbitrary: db)
  case Nil
  then show ?case by simp
next
  case (Cons st2 sts)
  from Cons.prems(2) obtain db1 where one: "execute st2 db = Inr db1"
    and rest: "execute_all sts db1 = Inr db'"
    by (auto split: sum.splits)
  from Cons.prems(1) one have "satisfied st db1" by (rule satisfied_kept)
  then show ?case using rest by (rule Cons.IH)
qed

lemma executed_all_satisfied:
  "execute_all sts db = Inr db' \<Longrightarrow> st \<in> set sts \<Longrightarrow> satisfied st db'"
proof (induction sts arbitrary: db)
  case Nil
  then show ?case by simp
next
  case (Cons st2 sts)
  from Cons.prems(1) obtain db1 where one: "execute st2 db = Inr db1"
    and rest: "execute_all sts db1 = Inr db'"
    by (auto split: sum.splits)
  show ?case
  proof (cases "st = st2")
    case True
    from one have "satisfied st2 db1" by (rule executed_satisfied)
    with True show ?thesis using rest satisfied_kept_all by blast
  next
    case False
    with Cons.prems(2) have "st \<in> set sts" by simp
    with rest show ?thesis by (rule Cons.IH)
  qed
qed

lemma all_satisfied_noop:
  "(\<And>st. st \<in> set sts \<Longrightarrow> satisfied st db) \<Longrightarrow> execute_all sts db = Inr db"
  by (induction sts) (auto simp: satisfied_noop)

lemma find_table_schema:
  assumes "schema_of db1 = schema_of db2"
  shows "map_option t_columns (find_table db1 nm) = map_option t_columns (find_table db2 nm)"
proof -
  let ?f = "\<lambda>nt :: string \<times> sql_table. (fst nt, t_columns (snd nt))"
  have eq: "map ?f (sql_tables db1) = map ?f (sql_tables db2)"
    using assms by (simp add: schema_of_def)
  have gen: "map_option (t_columns \<circ> snd) (find (\<lambda>nt. same_name (fst nt) nm) xs)
        = map_option snd (find (\<lambda>nc. same_name (fst nc) nm) (map ?f xs))" for xs
    by (induction xs) auto
  show ?thesis
    using gen [of "sql_tables db1"] gen [of "sql_tables db2"] eq
    by (simp add: find_table_def option.map_comp)
qed

lemma satisfied_schema:
  assumes "schema_of db1 = schema_of db2"
  shows "satisfied st db1 = satisfied st db2"
proof -
  have cols: "map_option t_columns (find_table db1 nm) = map_option t_columns (find_table db2 nm)"
    for nm using assms by (rule find_table_schema)
  have ix: "sql_indexes db1 = sql_indexes db2" using assms by (simp add: schema_of_def)
  have ti: "table_info db1 nm = table_info db2 nm" for nm
    using cols [of nm] by (auto simp: table_info_def split: option.splits)
  have ex: "(find_table db1 nm \<noteq> None) = (find_table db2 nm \<noteq> None)" for nm
    using cols [of nm] by (cases "find_table db1 nm"; cases "find_table db2 nm") auto
  have ex': "(\<exists>y. find_table db1 nm = Some y) = (\<exists>y. find_table db2 nm = Some y)" for nm
    using ex [of nm] by auto
  show ?thesis by (cases st) (simp_all add: ix ti ex')
qed

text \<open>
  Claim C8.  Once the initialisation has run without error on a database, running it again
  on that database, or on any database with the same schema (the rows may have changed in
  between), raises no error and returns the database as it was given, schema and rows:
  no statement changes anything, and every missing-column check finds its column.
\<close>

theorem init_database_idempotent:
  assumes first: "init_database db = Inr db'"
    and same: "schema_of db2 = schema_of db'"
  shows "init_database db2 = Inr db2 \<and> missing_columns db2 = []"
proof -
  have sat: "satisfied st db2" if "st \<in> set init_statements" for st
  proof -
    from first that have "satisfied st db'"
      unfolding init_database_def by (rule executed_all_satisfied)
    then show ?thesis using satisfied_schema [OF same] by simp
  qed
  then have run: "init_database db2 = Inr db2"
    unfolding init_database_def by (rule all_satisfied_noop)
  have "snd tc \<in> set (table_info db2 (fst tc))"
    if "tc \<in> set (concat (map added_column init_statements))" for tc
  proof -
    from that obtain st where st: "st \<in> set init_statements" and tc: "tc \<in> set (added_column st)"
      by auto
    from tc obtain tname col dflt where "st = Add_column_if_missing tname col dflt" "tc = (tname, col)"
      by (cases st) auto
    with sat [OF st] show ?thesis by simp
  qed
  then have "missing_columns db2 = []"
    by (auto simp: missing_columns_def filter_empty_conv)
  with run show ?thesis by simp
qed

theorem init_database_idempotent_witness:
  "init_database old_database = Inr migrated_database
   \<and> init_database migrated_database = Inr migrated_database
   \<and> missing_columns old_database
       = [(''files'', ''file_hash''), (''versions'', ''file_hash''), (''files'', ''is_favorite''),
          (''files'', ''is_archived''), (''versions'', ''is_pinned''),
          (''versions'', ''pinned_path''), (''files'', ''project_id'')]
   \<and> missing_columns migrated_database = []"
proof -
  have first: "init_database old_database = Inr migrated_database" by code_simp
  have before: "missing_columns old_database
       = [(''files'', ''file_hash''), (''versions'', ''file_hash''), (''files'', ''is_favorite''),
          (''files'', ''is_archived''), (''versions'', ''is_pinned''),
          (''versions'', ''pinned_path''), (''files'', ''project_id'')]" by code_simp
  from init_database_idempotent [OF first refl] first before show ?thesis by simp
qed

end
